theory Spec2Isabelle
  imports Main "HOL-Library.Word" "HOL-Library.AList"
begin

section \<open>pandoc-wasm: the virtual filesystem bridge of \<open>src/core.js\<close>\<close>

text \<open>
  The development embeds the function \<open>convert\<close> of \<open>createPandocInstance\<close> and the
  helpers it is built from (\<open>addFile\<close>, \<open>toUint8Array\<close>, \<open>convertData\<close>).
  The WebAssembly module is a parameter: any function from the seeded filesystem to
  what \<open>convert\<close> can observe afterwards. The platform functions
  \<open>TextEncoder.encode\<close> and \<open>TextDecoder.decode\<close> are written out after the
  Encoding Standard; \<open>JSON.parse\<close> is a parameter.
\<close>

subsection \<open>Strings and bytes\<close>

text \<open>
  A JavaScript string is a sequence of 16-bit code units; a \<open>Uint8Array\<close> is a
  sequence of bytes. Path names and file contents use these types unchanged.
\<close>

type_synonym byte = "8 word"
type_synonym bytes = "byte list"
type_synonym codeunit = "16 word"
type_synonym jsstring = "codeunit list"
type_synonym path = jsstring

text \<open>A string literal of the source, one code unit for each character.\<close>

definition js :: "string \<Rightarrow> jsstring" where
  "js s = map (\<lambda>c. of_nat (of_char c)) s"

subsection \<open>TextEncoder\<close>

definition is_lead :: "nat \<Rightarrow> bool" where
  "is_lead u = (0xD800 \<le> u \<and> u \<le> 0xDBFF)"

definition is_trail :: "nat \<Rightarrow> bool" where
  "is_trail u = (0xDC00 \<le> u \<and> u \<le> 0xDFFF)"

definition is_surrogate :: "nat \<Rightarrow> bool" where
  "is_surrogate u = (0xD800 \<le> u \<and> u \<le> 0xDFFF)"

text \<open>
  The conversion of a string to a sequence of scalar values that precedes encoding:
  a lead surrogate followed by a trail surrogate is one supplementary code point, any
  other surrogate becomes U+FFFD.
\<close>

fun scalars_of :: "nat list \<Rightarrow> nat list" where
  "scalars_of [] = []"
| "scalars_of [u] = [if is_surrogate u then 0xFFFD else u]"
| "scalars_of (u # v # us) =
     (if is_lead u \<and> is_trail v
      then (0x10000 + (u - 0xD800) * 0x400 + (v - 0xDC00)) # scalars_of us
      else (if is_surrogate u then 0xFFFD else u) # scalars_of (v # us))"

text \<open>The UTF-8 encoder: the bytes of one scalar value.\<close>

definition utf8_bytes :: "nat \<Rightarrow> nat list" where
  "utf8_bytes c =
     (if c \<le> 0x7F then [c]
      else if c \<le> 0x7FF then [0xC0 + c div 64, 0x80 + c mod 64]
      else if c \<le> 0xFFFF then [0xE0 + c div 4096, 0x80 + (c div 64) mod 64, 0x80 + c mod 64]
      else [0xF0 + c div 262144, 0x80 + (c div 4096) mod 64,
            0x80 + (c div 64) mod 64, 0x80 + c mod 64])"

definition utf8_encode :: "nat list \<Rightarrow> nat list" where
  "utf8_encode cs = concat (map utf8_bytes cs)"

text \<open>\<open>new TextEncoder().encode(s)\<close>\<close>

definition TextEncoder_encode :: "jsstring \<Rightarrow> bytes" where
  "TextEncoder_encode s = map of_nat (utf8_encode (scalars_of (map unat s)))"

subsection \<open>TextDecoder\<close>

text \<open>
  The UTF-8 decoder of the Encoding Standard, in fatal mode: the state is the code
  point under construction, the number of continuation bytes needed and seen, and the
  bounds of the next continuation byte. An error, and an end of input inside a
  sequence, give \<open>None\<close> (the \<open>TypeError\<close> of \<open>{fatal: true}\<close>).
\<close>

fun utf8_decoder :: "nat \<Rightarrow> nat \<Rightarrow> nat \<Rightarrow> nat \<Rightarrow> nat \<Rightarrow> nat list \<Rightarrow> nat list option" where
  "utf8_decoder cp needed seen lower upper [] = (if needed \<noteq> 0 then None else Some [])"
| "utf8_decoder cp needed seen lower upper (b # bs) =
     (if needed = 0 then
        (if b \<le> 0x7F then map_option ((#) b) (utf8_decoder 0 0 0 0x80 0xBF bs)
         else if 0xC2 \<le> b \<and> b \<le> 0xDF then utf8_decoder (b mod 32) 1 0 0x80 0xBF bs
         else if 0xE0 \<le> b \<and> b \<le> 0xEF then
           utf8_decoder (b mod 16) 2 0
             (if b = 0xE0 then 0xA0 else 0x80) (if b = 0xED then 0x9F else 0xBF) bs
         else if 0xF0 \<le> b \<and> b \<le> 0xF4 then
           utf8_decoder (b mod 8) 3 0
             (if b = 0xF0 then 0x90 else 0x80) (if b = 0xF4 then 0x8F else 0xBF) bs
         else None)
      else if b < lower \<or> upper < b then None
      else if seen + 1 \<noteq> needed then
        utf8_decoder (cp * 64 + b mod 64) needed (seen + 1) 0x80 0xBF bs
      else map_option ((#) (cp * 64 + b mod 64)) (utf8_decoder 0 0 0 0x80 0xBF bs))"

definition utf8_decode :: "nat list \<Rightarrow> nat list option" where
  "utf8_decode bs = utf8_decoder 0 0 0 0x80 0xBF bs"

text \<open>
  The decoders of the source are built without \<open>ignoreBOM\<close>, so a leading U+FEFF of
  the decoded text is dropped.
\<close>

fun strip_bom :: "nat list \<Rightarrow> nat list" where
  "strip_bom [] = []"
| "strip_bom (c # cs) = (if c = 0xFEFF then cs else c # cs)"

text \<open>The code units of a sequence of scalar values.\<close>

fun units_of :: "nat list \<Rightarrow> nat list" where
  "units_of [] = []"
| "units_of (c # cs) =
     (if c < 0x10000 then [c]
      else [0xD800 + (c - 0x10000) div 0x400, 0xDC00 + (c - 0x10000) mod 0x400])
     @ units_of cs"

text \<open>\<open>new TextDecoder("utf-8", {fatal: true}).decode(data)\<close>; \<open>None\<close> is the exception.\<close>

definition TextDecoder_decode :: "bytes \<Rightarrow> jsstring option" where
  "TextDecoder_decode d =
     map_option (\<lambda>cs. map of_nat (units_of (strip_bom cs))) (utf8_decode (map unat d))"

subsection \<open>Values, errors and the named-file store\<close>

text \<open>
  The exceptions: the \<open>TypeError\<close> of a fatal decoder, of a call of a missing method
  and of an assignment that strict mode code cannot make, the \<open>Error\<close> thrown by
  \<open>toUint8Array\<close>, and whatever the module or a foreign method throws.
\<close>

datatype error = TypeError | Error string | RuntimeError

text \<open>
  A file value of the caller: a string; a \<open>Blob\<close> (its bytes and its \<open>type\<close>);
  another object that has an \<open>arrayBuffer\<close> method and is no instance of \<open>Blob\<close>
  (a \<open>Response\<close>, an object written by hand), given by what
  \<open>new Uint8Array(await data.arrayBuffer())\<close> comes to, the bytes or the exception;
  or anything else (a number, \<open>null\<close>, a typed array, a plain object), which has no
  \<open>arrayBuffer\<close> method.
\<close>

datatype jsvalue = JString jsstring | JBlob bytes string | JBody "error + bytes" | JOther

text \<open>
  An entry of the \<open>fileSystem\<close> map, the content of the root directory: a \<open>File\<close>
  with its \<open>data\<close> and \<open>readonly\<close> flag, or a directory, which has no \<open>data\<close>
  and holds entries of its own. The map keeps one entry for each name, in insertion order;
  \<open>set\<close> is \<open>AList.update\<close>, \<open>get\<close> is \<open>map_of\<close>.
\<close>

datatype inode = File bytes bool | Directory "(jsstring \<times> inode) list"

type_synonym store = "(path \<times> inode) list"

type_synonym filemap = "(path \<times> jsvalue) list"

text \<open>
  \<open>addFile(filename, data, readonly)\<close>: a string is encoded; of any other value the
  method \<open>arrayBuffer\<close> is called, without a test for \<open>Blob\<close>.
\<close>

definition addFile :: "path \<Rightarrow> jsvalue \<Rightarrow> bool \<Rightarrow> store \<Rightarrow> error + store" where
  "addFile filename dat ro fileSys =
     (case dat of
        JString s \<Rightarrow> Inr (AList.update filename (File (TextEncoder_encode s) ro) fileSys)
      | JBlob b ty \<Rightarrow> Inr (AList.update filename (File b ro) fileSys)
      | JBody res \<Rightarrow>
          (case res of
             Inl e \<Rightarrow> Inl e
           | Inr b \<Rightarrow> Inr (AList.update filename (File b ro) fileSys))
      | JOther \<Rightarrow> Inl TypeError)"

text \<open>\<open>toUint8Array(inData)\<close>: a string, an instance of \<open>Blob\<close>, or the error.\<close>

definition toUint8Array :: "jsvalue \<Rightarrow> error + bytes" where
  "toUint8Array inData =
     (case inData of
        JString s \<Rightarrow> Inr (TextEncoder_encode s)
      | JBlob b ty \<Rightarrow> Inr b
      | JBody res \<Rightarrow> Inl (Error ''Unsupported type: inData must be a string or a Blob'')
      | JOther \<Rightarrow> Inl (Error ''Unsupported type: inData must be a string or a Blob''))"

text \<open>\<open>convertData(data)\<close>\<close>

definition convertData :: "bytes \<Rightarrow> jsvalue" where
  "convertData d = (case TextDecoder_decode d of Some s \<Rightarrow> JString s | None \<Rightarrow> JBlob d [])"

subsection \<open>Plain objects as dictionaries\<close>

text \<open>
  \<open>files\<close> and \<open>mediaFiles\<close> are plain objects: \<open>{...files}\<close> and \<open>{}\<close>. Such an
  object is given by its own enumerable properties, in order, and by whether its prototype
  is still \<open>Object.prototype\<close> or has become a \<open>Blob\<close>.

  \<open>assign_blob name d ty ob\<close> is the assignment
  \<open>ob[name] = new Blob([d], {type: ty})\<close>. An own property of that name is overwritten.
  Without one, the name \<open>__proto__\<close> reaches the setter of \<open>Object.prototype\<close>, which
  makes the blob the prototype of the object and adds no property; the names \<open>size\<close>
  and \<open>type\<close>, once the prototype is a blob, reach the getters of \<open>Blob.prototype\<close>,
  which have no setter, and the assignment throws a \<open>TypeError\<close>, the source being a
  module and so strict mode code; every other name becomes a new own property.
\<close>

record jsobject =
  props :: filemap
  blob_proto :: bool

definition assign_blob :: "path \<Rightarrow> bytes \<Rightarrow> string \<Rightarrow> jsobject \<Rightarrow> error + jsobject" where
  "assign_blob name d ty ob =
     (case map_of (props ob) name of
        Some v \<Rightarrow> Inr (ob\<lparr>props := AList.update name (JBlob d ty) (props ob)\<rparr>)
      | None \<Rightarrow>
          if name = js ''__proto__'' then Inr (ob\<lparr>blob_proto := True\<rparr>)
          else if blob_proto ob \<and> (name = js ''size'' \<or> name = js ''type'') then Inl TypeError
          else Inr (ob\<lparr>props := AList.update name (JBlob d ty) (props ob)\<rparr>))"

subsection \<open>Options\<close>

text \<open>
  The two keys \<open>convert\<close> reads, \<open>"output-file"\<close> and \<open>"extract-media"\<close>;
  \<open>None\<close> is a missing key. \<open>or_null v\<close> is \<open>v || null\<close>, and \<open>truthy\<close> the test
  of \<open>if (v)\<close>: the empty string is falsy.
\<close>

record options =
  output_file :: "jsstring option"
  extract_media :: "jsstring option"

definition truthy :: "jsstring option \<Rightarrow> bool" where
  "truthy v = (case v of None \<Rightarrow> False | Some s \<Rightarrow> s \<noteq> [])"

definition or_null :: "jsstring option \<Rightarrow> jsstring option" where
  "or_null v = (if truthy v then v else None)"

text \<open>\<open>s.endsWith(t)\<close>\<close>

definition endsWith :: "jsstring \<Rightarrow> jsstring \<Rightarrow> bool" where
  "endsWith s t = (length t \<le> length s \<and> drop (length s - length t) s = t)"

subsection \<open>Seeding\<close>

record seeded =
  fileSystem :: store
  knownFiles :: "path set"

text \<open>
  The four system files after \<open>fileSystem.clear()\<close>. The source assigns
  \<open>in_file.data\<close> just before the call of the module; the object is the one stored
  under \<open>"stdin"\<close> here, so the data is written where the object is created, and a later
  \<open>set\<close> of the same name replaces the object as it does in the source.
\<close>

definition system_files :: "jsstring option \<Rightarrow> store" where
  "system_files stdin =
     AList.update (js ''warnings'') (File [] False)
       (AList.update (js ''stderr'') (File [] False)
         (AList.update (js ''stdout'') (File [] False)
           (AList.update (js ''stdin'')
              (File (case stdin of None \<Rightarrow> [] | Some t \<Rightarrow> if t \<noteq> [] then TextEncoder_encode t else [])
                    True) [])))"

definition system_paths :: "path set" where
  "system_paths = {js ''stdin'', js ''stdout'', js ''stderr'', js ''warnings''}"

text \<open>The loop over the caller's files; the first value that cannot be read throws.\<close>

fun add_input_files :: "filemap \<Rightarrow> seeded \<Rightarrow> error + seeded" where
  "add_input_files [] s = Inr s"
| "add_input_files ((filename, v) # rest) s =
     (case addFile filename v True (fileSystem s) of
        Inl e \<Rightarrow> Inl e
      | Inr fileSys \<Rightarrow>
          add_input_files rest
            (s\<lparr>fileSystem := fileSys, knownFiles := insert filename (knownFiles s)\<rparr>))"

definition add_output_placeholder :: "path option \<Rightarrow> seeded \<Rightarrow> error + seeded" where
  "add_output_placeholder outputFileName s =
     (case outputFileName of
        None \<Rightarrow> Inr s
      | Some name \<Rightarrow>
          (case addFile name (JBlob [] []) False (fileSystem s) of
             Inl e \<Rightarrow> Inl e
           | Inr fileSys \<Rightarrow>
               Inr (s\<lparr>fileSystem := fileSys, knownFiles := insert name (knownFiles s)\<rparr>)))"

definition add_media_placeholder :: "path option \<Rightarrow> seeded \<Rightarrow> error + seeded" where
  "add_media_placeholder extractMediaPath s =
     (case extractMediaPath of
        None \<Rightarrow> Inr s
      | Some name \<Rightarrow>
          (case addFile name (JBlob [] []) False (fileSystem s) of
             Inl e \<Rightarrow> Inl e
           | Inr fileSys \<Rightarrow>
               Inr (s\<lparr>fileSystem := fileSys,
                        knownFiles := (if endsWith name (js ''.zip'')
                                       then insert name (knownFiles s) else knownFiles s)\<rparr>)))"

definition seeding :: "options \<Rightarrow> jsstring option \<Rightarrow> filemap \<Rightarrow> error + seeded" where
  "seeding opts stdin fls =
     (case add_input_files fls \<lparr>fileSystem = system_files stdin, knownFiles = system_paths\<rparr> of
        Inl e \<Rightarrow> Inl e
      | Inr s1 \<Rightarrow>
          (case add_output_placeholder (or_null (output_file opts)) s1 of
             Inl e \<Rightarrow> Inl e
           | Inr s2 \<Rightarrow> add_media_placeholder (or_null (extract_media opts)) s2))"

subsection \<open>The conversion module\<close>

text \<open>
  What \<open>convert\<close> observes after \<open>instance.exports.convert\<close> has returned: the entries
  of the \<open>fileSystem\<close> map, and the \<open>data\<close> of the three \<open>File\<close> objects it holds
  (\<open>out_file\<close>, \<open>err_file\<close>, \<open>warnings_file\<close>), which it reads through its own
  references and not through the map. The module is any function from the options and the
  seeded map to such an observation, or to an exception. It is given the options as they
  are: the source hands it their JSON text, which \<open>convert\<close> does not read again.
\<close>

record effect =
  entries :: store
  out_file_data :: bytes
  err_file_data :: bytes
  warnings_file_data :: bytes

type_synonym conversion = "options \<Rightarrow> store \<Rightarrow> error + effect"

subsection \<open>Harvesting\<close>

text \<open>
  The two reads by name, of the output file and of the extraction target, each with its
  assignment to \<open>files\<close>.
\<close>

definition collect_output :: "options \<Rightarrow> store \<Rightarrow> jsobject \<Rightarrow> error + jsobject" where
  "collect_output opts fileSys fls =
     (case output_file opts of
        None \<Rightarrow> Inr fls
      | Some name \<Rightarrow>
          if name \<noteq> [] then
            (case map_of fileSys name of
               Some (File d ro) \<Rightarrow> if 0 < length d then assign_blob name d [] fls else Inr fls
             | _ \<Rightarrow> Inr fls)
          else Inr fls)"

definition collect_media :: "options \<Rightarrow> store \<Rightarrow> jsobject \<Rightarrow> error + jsobject" where
  "collect_media opts fileSys fls =
     (case extract_media opts of
        None \<Rightarrow> Inr fls
      | Some name \<Rightarrow>
          if name \<noteq> [] then
            (case map_of fileSys name of
               Some (File d ro) \<Rightarrow>
                 if 0 < length d then assign_blob name d ''application/zip'' fls else Inr fls
             | _ \<Rightarrow> Inr fls)
          else Inr fls)"

text \<open>
  The body of the loop over \<open>fileSystem.entries()\<close>; the state is the pair of
  \<open>files\<close> and \<open>mediaFiles\<close>. A directory has no \<open>data\<close> and is passed over,
  with all it holds.
\<close>

fun classify_entry ::
  "path set \<Rightarrow> path option \<Rightarrow> path option \<Rightarrow> path \<times> inode \<Rightarrow> jsobject \<times> jsobject
     \<Rightarrow> error + jsobject \<times> jsobject"
where
  "classify_entry known outputFileName extractMediaPath (name, Directory sub) (fls, media) =
     Inr (fls, media)"
| "classify_entry known outputFileName extractMediaPath (name, File d ro) (fls, media) =
     (if name \<notin> known \<and> 0 < length d then
        (case assign_blob name d [] fls of
           Inl e \<Rightarrow> Inl e
         | Inr fls' \<Rightarrow>
             if Some name \<noteq> outputFileName \<and> Some name \<noteq> extractMediaPath then
               (case assign_blob name d [] media of
                  Inl e \<Rightarrow> Inl e
                | Inr media' \<Rightarrow> Inr (fls', media'))
             else Inr (fls', media))
      else Inr (fls, media))"

text \<open>The loop: the first assignment that throws ends it.\<close>

fun classify ::
  "path set \<Rightarrow> path option \<Rightarrow> path option \<Rightarrow> store \<Rightarrow> jsobject \<times> jsobject
     \<Rightarrow> error + jsobject \<times> jsobject"
where
  "classify known outputFileName extractMediaPath [] st = Inr st"
| "classify known outputFileName extractMediaPath (x # fileSys) st =
     (case classify_entry known outputFileName extractMediaPath x st of
        Inl e \<Rightarrow> Inl e
      | Inr st' \<Rightarrow> classify known outputFileName extractMediaPath fileSys st')"

text \<open>
  The harvest of the files: \<open>files\<close> starts as the clone of the caller's object,
  \<open>mediaFiles\<close> as the empty object.
\<close>

definition harvest_files ::
  "options \<Rightarrow> path set \<Rightarrow> filemap \<Rightarrow> store \<Rightarrow> error + jsobject \<times> jsobject"
where
  "harvest_files opts known fls fileSys =
     (case collect_output opts fileSys \<lparr>props = fls, blob_proto = False\<rparr> of
        Inl e \<Rightarrow> Inl e
      | Inr fls1 \<Rightarrow>
          (case collect_media opts fileSys fls1 of
             Inl e \<Rightarrow> Inl e
           | Inr fls2 \<Rightarrow>
               classify known (or_null (output_file opts)) (or_null (extract_media opts))
                 fileSys (fls2, \<lparr>props = [], blob_proto = False\<rparr>)))"

subsection \<open>Warnings\<close>

datatype json =
  JNull | JBool bool | JNumber int | JText jsstring | JArray "json list"
  | JObject "(jsstring \<times> json) list"

text \<open>
  \<open>JSON.parse\<close> is a parameter; \<open>None\<close> is its \<open>SyntaxError\<close>, which the source
  catches.
\<close>

definition parse_warnings :: "(jsstring \<Rightarrow> json option) \<Rightarrow> jsstring \<Rightarrow> json" where
  "parse_warnings JSON_parse rawWarnings =
     (if rawWarnings \<noteq> [] then
        (case JSON_parse rawWarnings of Some w \<Rightarrow> w | None \<Rightarrow> JArray [])
      else JArray [])"

subsection \<open>convert\<close>

text \<open>
  The result holds the own properties of \<open>files\<close> and of \<open>mediaFiles\<close>, which is
  what \<open>Object.entries\<close> and \<open>Object.keys\<close> read; the caller's \<open>files\<close> is the
  list of the own enumerable properties of the object passed, which is what the spread
  copies.
\<close>

record RunResult =
  stdout :: jsstring
  stderr :: jsstring
  warnings :: json
  files :: filemap
  mediaFiles :: filemap

definition harvesting ::
  "(jsstring \<Rightarrow> json option) \<Rightarrow> options \<Rightarrow> path set \<Rightarrow> filemap \<Rightarrow> effect \<Rightarrow> error + RunResult"
where
  "harvesting JSON_parse opts known fls eff =
     (case harvest_files opts known fls (entries eff) of
        Inl e \<Rightarrow> Inl e
      | Inr (fls', media) \<Rightarrow>
          (case TextDecoder_decode (warnings_file_data eff) of
             None \<Rightarrow> Inl TypeError
           | Some rawWarnings \<Rightarrow>
               (case TextDecoder_decode (out_file_data eff) of
                  None \<Rightarrow> Inl TypeError
                | Some out_text \<Rightarrow>
                    (case TextDecoder_decode (err_file_data eff) of
                       None \<Rightarrow> Inl TypeError
                     | Some err_text \<Rightarrow>
                         Inr \<lparr>stdout = out_text, stderr = err_text,
                              warnings = parse_warnings JSON_parse rawWarnings,
                              files = props fls', mediaFiles = props media\<rparr>))))"

definition convert ::
  "conversion \<Rightarrow> (jsstring \<Rightarrow> json option) \<Rightarrow> options \<Rightarrow> jsstring option \<Rightarrow> filemap
     \<Rightarrow> error + RunResult"
where
  "convert run JSON_parse opts stdin fls =
     (case seeding opts stdin fls of
        Inl e \<Rightarrow> Inl e
      | Inr s \<Rightarrow>
          (case run opts (fileSystem s) of
             Inl e \<Rightarrow> Inl e
           | Inr eff \<Rightarrow> harvesting JSON_parse opts (knownFiles s) fls eff))"

subsection \<open>The vocabulary of the specification\<close>

text \<open>
  The KnownPathSet as the specification describes it: the four system paths, every path
  of the caller's files, the declared output path, and the extraction target when it
  names an archive. An empty string declares nothing.
\<close>

definition KnownPathSet :: "options \<Rightarrow> filemap \<Rightarrow> path set" where
  "KnownPathSet opts fls =
     system_paths \<union> fst ` set fls
     \<union> (case output_file opts of None \<Rightarrow> {} | Some name \<Rightarrow> if name \<noteq> [] then {name} else {})
     \<union> (case extract_media opts of None \<Rightarrow> {}
        | Some name \<Rightarrow> if name \<noteq> [] \<and> endsWith name (js ''.zip'') then {name} else {})"

text \<open>A path underneath a directory: the directory's path, a slash, and more.\<close>

definition underneath :: "path \<Rightarrow> path \<Rightarrow> bool" where
  "underneath dir p = (take (length dir + 1) p = dir @ js ''/'')"

text \<open>Unicode scalar values, and strings without an unpaired surrogate.\<close>

definition is_scalar :: "nat \<Rightarrow> bool" where
  "is_scalar c = (c \<le> 0x10FFFF \<and> \<not> is_surrogate c)"

fun well_formed :: "nat list \<Rightarrow> bool" where
  "well_formed [] = True"
| "well_formed [u] = (\<not> is_surrogate u)"
| "well_formed (u # v # us) =
     (if is_lead u \<and> is_trail v then well_formed us
      else \<not> is_surrogate u \<and> well_formed (v # us))"

text \<open>Valid UTF-8: the bytes are the encoding of a sequence of scalar values.\<close>

definition valid_utf8 :: "bytes \<Rightarrow> bool" where
  "valid_utf8 d = (\<exists>cs. list_all is_scalar cs \<and> utf8_encode cs = map unat d)"

text \<open>
  A value whose bytes \<open>addFile\<close> obtains: a string, or an object whose
  \<open>arrayBuffer\<close> method returns.
\<close>

definition readable :: "jsvalue \<Rightarrow> bool" where
  "readable v =
     (case v of
        JString s \<Rightarrow> True
      | JBlob b ty \<Rightarrow> True
      | JBody res \<Rightarrow> (case res of Inl e \<Rightarrow> False | Inr b \<Rightarrow> True)
      | JOther \<Rightarrow> False)"

text \<open>
  A stand-in for the module that writes scripted outputs: it sets the data of the three
  output streams (the objects stay where the map has them) and stores each scripted file
  under its name.
\<close>

definition scripted :: "(path \<times> bytes) list \<Rightarrow> bytes \<Rightarrow> bytes \<Rightarrow> bytes \<Rightarrow> conversion" where
  "scripted writes out err warn opts fileSys =
     Inr \<lparr>entries = fold (\<lambda>(p, d). AList.update p (File d False)) writes
                      (AList.update (js ''warnings'') (File warn False)
                        (AList.update (js ''stderr'') (File err False)
                          (AList.update (js ''stdout'') (File out False) fileSys))),
          out_file_data = out, err_file_data = err, warnings_file_data = warn\<rparr>"

text \<open>A module that traps.\<close>

definition faulting :: conversion where
  "faulting opts fileSys = Inl RuntimeError"

text \<open>Two parsers to run examples with: one rejects every text, one accepts \<open>[null]\<close> only.\<close>

definition parse_nothing :: "jsstring \<Rightarrow> json option" where
  "parse_nothing t = None"


subsection \<open>Example runs\<close>

text \<open>
  A new entry of the map under a name with a slash: the caller gives \<open>doc.docx\<close>
  and the target \<open>media\<close>; after the run the map holds a file under the name
  \<open>media/img1.png\<close>, and the module has written two bytes of standard output.
\<close>

definition ex_dir_opts :: options where
  "ex_dir_opts = \<lparr>output_file = None, extract_media = Some (js ''media'')\<rparr>"

definition ex_dir_files :: filemap where
  "ex_dir_files = [(js ''doc.docx'', JBlob [0x50, 0x4B] [])]"

definition ex_dir_run :: conversion where
  "ex_dir_run = scripted [(js ''media/img1.png'', [0x89, 0x50])] [0x68, 0x69] [] []"

text \<open>
  An output file and an extraction archive: the module writes \<open>out.html\<close> and
  \<open>media.zip\<close>.
\<close>

definition ex_zip_opts :: options where
  "ex_zip_opts = \<lparr>output_file = Some (js ''out.html''), extract_media = Some (js ''media.zip'')\<rparr>"

definition ex_zip_run :: conversion where
  "ex_zip_run = scripted [(js ''out.html'', [0x3C, 0x70, 0x3E]), (js ''media.zip'', [0x50, 0x4B])] [] [] []"

text \<open>What the two runs seed, what the module leaves, and what \<open>convert\<close> returns.\<close>

definition ex_dir_seeded :: seeded where
  "ex_dir_seeded =
     \<lparr>fileSystem =
        [(js ''stdin'', File [] True), (js ''stdout'', File [] False),
         (js ''stderr'', File [] False), (js ''warnings'', File [] False),
         (js ''doc.docx'', File [0x50, 0x4B] True), (js ''media'', File [] False)],
      knownFiles = {js ''stdin'', js ''stdout'', js ''stderr'', js ''warnings'', js ''doc.docx''}\<rparr>"

definition ex_dir_effect :: effect where
  "ex_dir_effect =
     \<lparr>entries =
        [(js ''stdin'', File [] True), (js ''stdout'', File [0x68, 0x69] False),
         (js ''stderr'', File [] False), (js ''warnings'', File [] False),
         (js ''doc.docx'', File [0x50, 0x4B] True), (js ''media'', File [] False),
         (js ''media/img1.png'', File [0x89, 0x50] False)],
      out_file_data = [0x68, 0x69], err_file_data = [], warnings_file_data = []\<rparr>"

definition ex_dir_result :: RunResult where
  "ex_dir_result =
     \<lparr>stdout = js ''hi'', stderr = [], warnings = JArray [],
      files = [(js ''doc.docx'', JBlob [0x50, 0x4B] []),
               (js ''media/img1.png'', JBlob [0x89, 0x50] [])],
      mediaFiles = [(js ''media/img1.png'', JBlob [0x89, 0x50] [])]\<rparr>"

definition ex_zip_seeded :: seeded where
  "ex_zip_seeded =
     \<lparr>fileSystem =
        [(js ''stdin'', File [] True), (js ''stdout'', File [] False),
         (js ''stderr'', File [] False), (js ''warnings'', File [] False),
         (js ''out.html'', File [] False), (js ''media.zip'', File [] False)],
      knownFiles = {js ''stdin'', js ''stdout'', js ''stderr'', js ''warnings'',
                    js ''out.html'', js ''media.zip''}\<rparr>"

definition ex_zip_effect :: effect where
  "ex_zip_effect =
     \<lparr>entries =
        [(js ''stdin'', File [] True), (js ''stdout'', File [] False),
         (js ''stderr'', File [] False), (js ''warnings'', File [] False),
         (js ''out.html'', File [0x3C, 0x70, 0x3E] False),
         (js ''media.zip'', File [0x50, 0x4B] False)],
      out_file_data = [], err_file_data = [], warnings_file_data = []\<rparr>"

definition ex_zip_result :: RunResult where
  "ex_zip_result =
     \<lparr>stdout = [], stderr = [], warnings = JArray [],
      files = [(js ''out.html'', JBlob [0x3C, 0x70, 0x3E] []),
               (js ''media.zip'', JBlob [0x50, 0x4B] ''application/zip'')],
      mediaFiles = []\<rparr>"

text \<open>
  A conversion to standard output: no files, no declared paths; the module writes two
  bytes of standard output.
\<close>

definition ex_out_opts :: options where
  "ex_out_opts = \<lparr>output_file = None, extract_media = None\<rparr>"

definition ex_out_run :: conversion where
  "ex_out_run = scripted [] [0x68, 0x69] [] []"

definition ex_out_seeded :: seeded where
  "ex_out_seeded =
     \<lparr>fileSystem =
        [(js ''stdin'', File [] True), (js ''stdout'', File [] False),
         (js ''stderr'', File [] False), (js ''warnings'', File [] False)],
      knownFiles = {js ''stdin'', js ''stdout'', js ''stderr'', js ''warnings''}\<rparr>"

definition ex_out_effect :: effect where
  "ex_out_effect =
     \<lparr>entries =
        [(js ''stdin'', File [] True), (js ''stdout'', File [0x68, 0x69] False),
         (js ''stderr'', File [] False), (js ''warnings'', File [] False)],
      out_file_data = [0x68, 0x69], err_file_data = [], warnings_file_data = []\<rparr>"

definition ex_out_result :: RunResult where
  "ex_out_result =
     \<lparr>stdout = js ''hi'', stderr = [], warnings = JArray [], files = [], mediaFiles = []\<rparr>"

text \<open>The options that name the empty string twice.\<close>

definition ex_empty_opts :: options where
  "ex_empty_opts = \<lparr>output_file = Some [], extract_media = Some []\<rparr>"

text \<open>A module that leaves text in the warnings stream: \<open>nope\<close>, and \<open>[null]\<close>.\<close>

definition ex_warn_run :: conversion where
  "ex_warn_run = scripted [] [] [] [0x6E, 0x6F, 0x70, 0x65]"

definition ex_warn_effect :: effect where
  "ex_warn_effect =
     \<lparr>entries =
        [(js ''stdin'', File [] True), (js ''stdout'', File [] False),
         (js ''stderr'', File [] False), (js ''warnings'', File [0x6E, 0x6F, 0x70, 0x65] False)],
      out_file_data = [], err_file_data = [], warnings_file_data = [0x6E, 0x6F, 0x70, 0x65]\<rparr>"

definition ex_null_run :: conversion where
  "ex_null_run = scripted [] [] [] [0x5B, 0x6E, 0x75, 0x6C, 0x6C, 0x5D]"

definition ex_null_effect :: effect where
  "ex_null_effect =
     \<lparr>entries =
        [(js ''stdin'', File [] True), (js ''stdout'', File [] False),
         (js ''stderr'', File [] False),
         (js ''warnings'', File [0x5B, 0x6E, 0x75, 0x6C, 0x6C, 0x5D] False)],
      out_file_data = [], err_file_data = [],
      warnings_file_data = [0x5B, 0x6E, 0x75, 0x6C, 0x6C, 0x5D]\<rparr>"

text \<open>
  A file named \<open>__proto__\<close>: no declared paths, no files of the caller; the module
  writes two bytes under the name \<open>__proto__\<close> in the root directory.
\<close>

definition ex_proto_run :: conversion where
  "ex_proto_run = scripted [(js ''__proto__'', [0x89, 0x50])] [] [] []"

definition ex_proto_effect :: effect where
  "ex_proto_effect =
     \<lparr>entries =
        [(js ''stdin'', File [] True), (js ''stdout'', File [] False),
         (js ''stderr'', File [] False), (js ''warnings'', File [] False),
         (js ''__proto__'', File [0x89, 0x50] False)],
      out_file_data = [], err_file_data = [], warnings_file_data = []\<rparr>"

definition ex_proto_result :: RunResult where
  "ex_proto_result =
     \<lparr>stdout = [], stderr = [], warnings = JArray [], files = [], mediaFiles = []\<rparr>"

text \<open>
  The same, followed by a file named \<open>size\<close>: the assignment to \<open>files\<close> under
  that name throws.
\<close>

definition ex_throw_run :: conversion where
  "ex_throw_run = scripted [(js ''__proto__'', [0x89, 0x50]), (js ''size'', [0x31])] [] [] []"

text \<open>The same two files, and the text \<open>nope\<close> in the warnings stream.\<close>

definition ex_abort_run :: conversion where
  "ex_abort_run =
     scripted [(js ''__proto__'', [0x89, 0x50]), (js ''size'', [0x31])] [] []
       [0x6E, 0x6F, 0x70, 0x65]"

definition ex_abort_effect :: effect where
  "ex_abort_effect =
     \<lparr>entries =
        [(js ''stdin'', File [] True), (js ''stdout'', File [] False),
         (js ''stderr'', File [] False), (js ''warnings'', File [0x6E, 0x6F, 0x70, 0x65] False),
         (js ''__proto__'', File [0x89, 0x50] False), (js ''size'', File [0x31] False)],
      out_file_data = [], err_file_data = [], warnings_file_data = [0x6E, 0x6F, 0x70, 0x65]\<rparr>"

text \<open>
  Extraction into a directory, as the root directory holds it: the caller gives
  \<open>doc.docx\<close> and the target \<open>media\<close>; the module leaves, under the name
  \<open>media\<close>, a directory that holds the file \<open>image1.png\<close>.
\<close>

definition ex_nested_run :: conversion where
  "ex_nested_run opts fileSys =
     Inr \<lparr>entries = AList.update (js ''media'')
                      (Directory [(js ''image1.png'', File [0x89, 0x50] False)]) fileSys,
          out_file_data = [], err_file_data = [], warnings_file_data = []\<rparr>"

definition ex_nested_effect :: effect where
  "ex_nested_effect =
     \<lparr>entries =
        [(js ''stdin'', File [] True), (js ''stdout'', File [] False),
         (js ''stderr'', File [] False), (js ''warnings'', File [] False),
         (js ''doc.docx'', File [0x50, 0x4B] True),
         (js ''media'', Directory [(js ''image1.png'', File [0x89, 0x50] False)])],
      out_file_data = [], err_file_data = [], warnings_file_data = []\<rparr>"

definition ex_nested_result :: RunResult where
  "ex_nested_result =
     \<lparr>stdout = [], stderr = [], warnings = JArray [],
      files = [(js ''doc.docx'', JBlob [0x50, 0x4B] [])], mediaFiles = []\<rparr>"

text \<open>
  A new file in the root directory: the caller gives \<open>doc.docx\<close>, the module writes
  \<open>image1.png\<close>.
\<close>

definition ex_img_run :: conversion where
  "ex_img_run = scripted [(js ''image1.png'', [0x89, 0x50])] [] [] []"

definition ex_img_seeded :: seeded where
  "ex_img_seeded =
     \<lparr>fileSystem =
        [(js ''stdin'', File [] True), (js ''stdout'', File [] False),
         (js ''stderr'', File [] False), (js ''warnings'', File [] False),
         (js ''doc.docx'', File [0x50, 0x4B] True)],
      knownFiles = {js ''stdin'', js ''stdout'', js ''stderr'', js ''warnings'', js ''doc.docx''}\<rparr>"

definition ex_img_effect :: effect where
  "ex_img_effect =
     \<lparr>entries =
        [(js ''stdin'', File [] True), (js ''stdout'', File [] False),
         (js ''stderr'', File [] False), (js ''warnings'', File [] False),
         (js ''doc.docx'', File [0x50, 0x4B] True),
         (js ''image1.png'', File [0x89, 0x50] False)],
      out_file_data = [], err_file_data = [], warnings_file_data = []\<rparr>"

definition ex_img_result :: RunResult where
  "ex_img_result =
     \<lparr>stdout = [], stderr = [], warnings = JArray [],
      files = [(js ''doc.docx'', JBlob [0x50, 0x4B] []),
               (js ''image1.png'', JBlob [0x89, 0x50] [])],
      mediaFiles = [(js ''image1.png'', JBlob [0x89, 0x50] [])]\<rparr>"

text \<open>
  A file value that is no string and no \<open>Blob\<close>: an object whose \<open>arrayBuffer\<close>
  method gives two bytes, under the name \<open>a.bin\<close>.
\<close>

definition ex_body_files :: filemap where
  "ex_body_files = [(js ''a.bin'', JBody (Inr [0x01, 0x02]))]"

definition ex_body_seeded :: seeded where
  "ex_body_seeded =
     \<lparr>fileSystem =
        [(js ''stdin'', File [] True), (js ''stdout'', File [] False),
         (js ''stderr'', File [] False), (js ''warnings'', File [] False),
         (js ''a.bin'', File [0x01, 0x02] True)],
      knownFiles = {js ''stdin'', js ''stdout'', js ''stderr'', js ''warnings'', js ''a.bin''}\<rparr>"

definition ex_body_result :: RunResult where
  "ex_body_result =
     \<lparr>stdout = js ''hi'', stderr = [], warnings = JArray [],
      files = [(js ''a.bin'', JBody (Inr [0x01, 0x02]))], mediaFiles = []\<rparr>"

section \<open>The text codec\<close>

lemmas run_defs =
  convert_def seeding_def add_output_placeholder_def add_media_placeholder_def addFile_def
  system_files_def system_paths_def or_null_def truthy_def endsWith_def harvesting_def
  collect_output_def collect_media_def harvest_files_def assign_blob_def parse_warnings_def
  scripted_def js_def
  TextDecoder_decode_def utf8_decode_def TextEncoder_encode_def utf8_encode_def utf8_bytes_def
  is_surrogate_def is_lead_def is_trail_def Let_def

text \<open>Arithmetic of the 6-bit groups.\<close>

lemma mod_strip:
  "q < 32 \<Longrightarrow> (192 + q) mod 32 = (q::nat)"
  "q < 16 \<Longrightarrow> (224 + q) mod 16 = (q::nat)"
  "q < 8 \<Longrightarrow> (240 + q) mod 8 = (q::nat)"
  "r < 64 \<Longrightarrow> (128 + r) mod 64 = (r::nat)"
  by (subst mod_add_left_eq [symmetric], simp)+

lemma split64: "\<exists>a r. c = a * 64 + r \<and> r < (64::nat) \<and> c div 64 = a \<and> c mod 64 = r"
  by (rule exI [of _ "c div 64"], rule exI [of _ "c mod 64"]) simp

lemma div_4096: "(c::nat) div 4096 = c div 64 div 64"
  by (simp add: div_mult2_eq [symmetric])

lemma div_262144: "(c::nat) div 262144 = c div 64 div 64 div 64"
  by (simp add: div_mult2_eq [symmetric])

lemma dm64:
  assumes "r < (64::nat)"
  shows "(a * 64 + r) div 64 = a" and "(a * 64 + r) mod 64 = r"
  using assms by simp_all

text \<open>The decoder on bytes given by their groups.\<close>

lemma decoder_two:
  assumes "2 \<le> q" "q \<le> 31" "r < 64"
  shows "utf8_decoder 0 0 0 0x80 0xBF ((0xC0 + q) # (0x80 + r) # bs)
         = map_option ((#) (q * 64 + r)) (utf8_decoder 0 0 0 0x80 0xBF bs)"
  using assms by (simp add: mod_strip)

lemma decoder_three:
  assumes "q1 \<le> 15" "q2 < 64" "r < 64" "q1 = 0 \<longrightarrow> 32 \<le> q2" "q1 = 13 \<longrightarrow> q2 < 32"
  shows "utf8_decoder 0 0 0 0x80 0xBF ((0xE0 + q1) # (0x80 + q2) # (0x80 + r) # bs)
         = map_option ((#) ((q1 * 64 + q2) * 64 + r)) (utf8_decoder 0 0 0 0x80 0xBF bs)"
  using assms by (auto simp add: mod_strip)

lemma decoder_four:
  assumes "q0 \<le> 4" "q1 < 64" "q2 < 64" "r < 64" "q0 = 0 \<longrightarrow> 16 \<le> q1" "q0 = 4 \<longrightarrow> q1 < 16"
  shows "utf8_decoder 0 0 0 0x80 0xBF ((0xF0 + q0) # (0x80 + q1) # (0x80 + q2) # (0x80 + r) # bs)
         = map_option ((#) (((q0 * 64 + q1) * 64 + q2) * 64 + r)) (utf8_decoder 0 0 0 0x80 0xBF bs)"
  using assms by (auto simp add: mod_strip)

text \<open>The shape of the bytes of a scalar value, with its 6-bit groups named.\<close>

lemma utf8_bytes_form:
  assumes "is_scalar c"
  obtains (one) "c \<le> 0x7F" "utf8_bytes c = [c]"
  | (two) q r where "2 \<le> q" "q \<le> 31" "r < 64" "c = q * 64 + r"
      "utf8_bytes c = [0xC0 + q, 0x80 + r]"
  | (three) q1 q2 r where "q1 \<le> 15" "q2 < 64" "r < 64" "q1 = 0 \<longrightarrow> 32 \<le> q2"
      "q1 = 13 \<longrightarrow> q2 < 32" "c = (q1 * 64 + q2) * 64 + r"
      "utf8_bytes c = [0xE0 + q1, 0x80 + q2, 0x80 + r]"
  | (four) q0 q1 q2 r where "q0 \<le> 4" "q1 < 64" "q2 < 64" "r < 64" "q0 = 0 \<longrightarrow> 16 \<le> q1"
      "q0 = 4 \<longrightarrow> q1 < 16" "c = ((q0 * 64 + q1) * 64 + q2) * 64 + r"
      "utf8_bytes c = [0xF0 + q0, 0x80 + q1, 0x80 + q2, 0x80 + r]"
proof -
  obtain a r where c: "c = a * 64 + r" "r < 64" "c div 64 = a" "c mod 64 = r"
    using split64 [of c] by blast
  obtain a1 q2 where a: "a = a1 * 64 + q2" "q2 < 64" "a div 64 = a1" "a mod 64 = q2"
    using split64 [of a] by blast
  obtain q0 q1 where a1: "a1 = q0 * 64 + q1" "q1 < 64" "a1 div 64 = q0" "a1 mod 64 = q1"
    using split64 [of a1] by blast
  consider "c \<le> 0x7F" | "0x7F < c" "c \<le> 0x7FF" | "0x7FF < c" "c \<le> 0xFFFF" | "0xFFFF < c"
    by linarith
  then show ?thesis
  proof cases
    case 1
    then have "utf8_bytes c = [c]" by (simp add: utf8_bytes_def)
    with 1 show ?thesis by (rule one)
  next
    case 2
    have b: "utf8_bytes c = [0xC0 + a, 0x80 + r]"
      using 2 c by (simp add: utf8_bytes_def)
    have "2 \<le> a" "a \<le> 31" using 2 c(1,2) by linarith+
    then show ?thesis using c(2,1) b by (rule two)
  next
    case 3
    have b: "utf8_bytes c = [0xE0 + a1, 0x80 + q2, 0x80 + r]"
      using 3 c a by (simp add: utf8_bytes_def div_4096)
    have ns: "c < 0xD800 \<or> 0xDFFF < c"
      using assms by (auto simp: is_scalar_def is_surrogate_def)
    have h: "a1 \<le> 15" "a1 = 0 \<longrightarrow> 32 \<le> q2" "a1 = 13 \<longrightarrow> q2 < 32"
      using 3 ns c(1,2) a(1,2) by linarith+
    have e: "c = (a1 * 64 + q2) * 64 + r" by (simp only: c(1) a(1))
    from h(1) a(2) c(2) h(2,3) e b show ?thesis by (rule three)
  next
    case 4
    have b: "utf8_bytes c = [0xF0 + q0, 0x80 + q1, 0x80 + q2, 0x80 + r]"
      using 4 c a a1 by (simp add: utf8_bytes_def div_4096 div_262144)
    have le: "c \<le> 0x10FFFF" using assms by (simp add: is_scalar_def)
    have h: "q0 \<le> 4" "q0 = 0 \<longrightarrow> 16 \<le> q1" "q0 = 4 \<longrightarrow> q1 < 16"
      using 4 le c(1,2) a(1,2) a1(1,2) by linarith+
    have e: "c = ((q0 * 64 + q1) * 64 + q2) * 64 + r" by (simp only: c(1) a(1) a1(1))
    from h(1) a1(2) a(2) c(2) h(2,3) e b show ?thesis by (rule four)
  qed
qed

text \<open>The decoder reads the bytes of a scalar value back, and rejects a proper prefix.\<close>

lemma decoder_utf8_bytes:
  assumes "is_scalar c"
  shows "utf8_decoder 0 0 0 0x80 0xBF (utf8_bytes c @ bs)
         = map_option ((#) c) (utf8_decoder 0 0 0 0x80 0xBF bs)"
  using assms
proof (cases rule: utf8_bytes_form)
  case one
  then show ?thesis by simp
next
  case (two q r)
  have "utf8_decoder 0 0 0 0x80 0xBF (utf8_bytes c @ bs)
      = utf8_decoder 0 0 0 0x80 0xBF ((0xC0 + q) # (0x80 + r) # bs)"
    by (simp only: two(5) append.simps)
  also have "\<dots> = map_option ((#) (q * 64 + r)) (utf8_decoder 0 0 0 0x80 0xBF bs)"
    by (rule decoder_two [OF two(1-3)])
  also have "\<dots> = map_option ((#) c) (utf8_decoder 0 0 0 0x80 0xBF bs)"
    by (simp only: two(4))
  finally show ?thesis .
next
  case (three q1 q2 r)
  have "utf8_decoder 0 0 0 0x80 0xBF (utf8_bytes c @ bs)
      = utf8_decoder 0 0 0 0x80 0xBF ((0xE0 + q1) # (0x80 + q2) # (0x80 + r) # bs)"
    by (simp only: three(7) append.simps)
  also have "\<dots> = map_option ((#) ((q1 * 64 + q2) * 64 + r)) (utf8_decoder 0 0 0 0x80 0xBF bs)"
    by (rule decoder_three [OF three(1-5)])
  also have "\<dots> = map_option ((#) c) (utf8_decoder 0 0 0 0x80 0xBF bs)"
    by (simp only: three(6))
  finally show ?thesis .
next
  case (four q0 q1 q2 r)
  have "utf8_decoder 0 0 0 0x80 0xBF (utf8_bytes c @ bs)
      = utf8_decoder 0 0 0 0x80 0xBF ((0xF0 + q0) # (0x80 + q1) # (0x80 + q2) # (0x80 + r) # bs)"
    by (simp only: four(8) append.simps)
  also have "\<dots> = map_option ((#) (((q0 * 64 + q1) * 64 + q2) * 64 + r)) (utf8_decoder 0 0 0 0x80 0xBF bs)"
    by (rule decoder_four [OF four(1-6)])
  also have "\<dots> = map_option ((#) c) (utf8_decoder 0 0 0 0x80 0xBF bs)"
    by (simp only: four(7))
  finally show ?thesis .
qed

lemma utf8_bytes_range:
  assumes "is_scalar c" and "b \<in> set (utf8_bytes c)"
  shows "b < 256"
  using assms(1)
proof (cases rule: utf8_bytes_form)
  case one
  with assms(2) show ?thesis by simp
next
  case (two q r)
  with assms(2) have "b = 0xC0 + q \<or> b = 0x80 + r" by simp
  with two(2,3) show ?thesis by linarith
next
  case (three q1 q2 r)
  with assms(2) have "b = 0xE0 + q1 \<or> b = 0x80 + q2 \<or> b = 0x80 + r" by simp
  with three(1-3) show ?thesis by linarith
next
  case (four q0 q1 q2 r)
  with assms(2) have "b = 0xF0 + q0 \<or> b = 0x80 + q1 \<or> b = 0x80 + q2 \<or> b = 0x80 + r" by simp
  with four(1-4) show ?thesis by linarith
qed

lemma decoder_truncated:
  assumes "is_scalar c" and "0 < n" and "n < length (utf8_bytes c)"
  shows "utf8_decoder 0 0 0 0x80 0xBF (take n (utf8_bytes c)) = None"
  using assms(1)
proof (cases rule: utf8_bytes_form)
  case one
  with assms(2,3) show ?thesis by simp
next
  case (two q r)
  with assms(2,3) have "n = 1" by simp
  with two show ?thesis by (simp add: mod_strip)
next
  case (three q1 q2 r)
  with assms(2,3) have "n = 1 \<or> n = 2" by auto
  with three show ?thesis by (auto simp: mod_strip numeral_2_eq_2)
next
  case (four q0 q1 q2 r)
  with assms(2,3) have "n = 1 \<or> n = 2 \<or> n = 3" by auto
  with four show ?thesis by (auto simp: mod_strip numeral_2_eq_2 numeral_3_eq_3)
qed


lemma utf8_decode_encode:
  "list_all is_scalar cs \<Longrightarrow> utf8_decode (utf8_encode cs @ bs) = map_option ((@) cs) (utf8_decode bs)"
proof (induction cs)
  case Nil
  then show ?case by (simp add: utf8_encode_def option.map_ident)
next
  case (Cons c cs)
  then have c: "is_scalar c" and IH: "utf8_decode (utf8_encode cs @ bs) = map_option ((@) cs) (utf8_decode bs)"
    by simp_all
  have "utf8_decode (utf8_encode (c # cs) @ bs) = utf8_decoder 0 0 0 0x80 0xBF (utf8_bytes c @ (utf8_encode cs @ bs))"
    by (simp add: utf8_decode_def utf8_encode_def)
  also have "\<dots> = map_option ((#) c) (utf8_decode (utf8_encode cs @ bs))"
    unfolding utf8_decode_def by (rule decoder_utf8_bytes [OF c])
  also have "\<dots> = map_option ((@) (c # cs)) (utf8_decode bs)"
    unfolding IH by (cases "utf8_decode bs") simp_all
  finally show ?case .
qed

text \<open>What the decoder accepts is an encoding of scalar values.\<close>

lemma bytes_one: "c \<le> 0x7F \<Longrightarrow> utf8_bytes c = [c] \<and> is_scalar c"
  by (simp add: utf8_bytes_def is_scalar_def is_surrogate_def)

lemma bytes_two:
  assumes "2 \<le> q" "q \<le> 31" "r < 64"
  shows "utf8_bytes (q * 64 + r) = [0xC0 + q, 0x80 + r] \<and> is_scalar (q * 64 + r)"
proof -
  have "0x7F < q * 64 + r" "q * 64 + r \<le> 0x7FF" using assms by linarith+
  moreover have "(q * 64 + r) div 64 = q" "(q * 64 + r) mod 64 = r" using assms by simp_all
  ultimately show ?thesis
    by (simp add: utf8_bytes_def is_scalar_def is_surrogate_def)
qed

lemma bytes_three:
  assumes "q1 \<le> 15" "q2 < 64" "r < 64" "q1 = 0 \<longrightarrow> 32 \<le> q2" "q1 = 13 \<longrightarrow> q2 < 32"
  shows "utf8_bytes ((q1 * 64 + q2) * 64 + r) = [0xE0 + q1, 0x80 + q2, 0x80 + r]
       \<and> is_scalar ((q1 * 64 + q2) * 64 + r)"
proof -
  let ?c = "(q1 * 64 + q2) * 64 + r"
  have lo: "0x7FF < ?c" using assms by (cases "q1 = 0") simp_all
  have ex: "?c = q1 * 4096 + q2 * 64 + r" by simp
  have hi: "?c \<le> 0xFFFF" unfolding ex using assms(1-3) by linarith
  have ns: "?c < 0xD800 \<or> 0xDFFF < ?c"
  proof (cases "q1 = 13")
    case True
    with assms show ?thesis by simp
  next
    case False
    then have "q1 \<le> 12 \<or> 14 \<le> q1" by linarith
    then show ?thesis unfolding ex using assms(2,3) by linarith
  qed
  have d: "?c div 64 = q1 * 64 + q2" "?c mod 64 = r"
    by (rule dm64 [OF assms(3)])+
  have d2: "(q1 * 64 + q2) div 64 = q1" "(q1 * 64 + q2) mod 64 = q2"
    by (rule dm64 [OF assms(2)])+
  from lo hi have "utf8_bytes ?c = [0xE0 + ?c div 4096, 0x80 + (?c div 64) mod 64, 0x80 + ?c mod 64]"
    unfolding utf8_bytes_def by simp
  then have "utf8_bytes ?c = [0xE0 + q1, 0x80 + q2, 0x80 + r]"
    unfolding div_4096 d d2 .
  moreover have "is_scalar ?c" using hi ns by (auto simp: is_scalar_def is_surrogate_def)
  ultimately show ?thesis by simp
qed

lemma bytes_four:
  assumes "q0 \<le> 4" "q1 < 64" "q2 < 64" "r < 64" "q0 = 0 \<longrightarrow> 16 \<le> q1" "q0 = 4 \<longrightarrow> q1 < 16"
  shows "utf8_bytes (((q0 * 64 + q1) * 64 + q2) * 64 + r)
           = [0xF0 + q0, 0x80 + q1, 0x80 + q2, 0x80 + r]
       \<and> is_scalar (((q0 * 64 + q1) * 64 + q2) * 64 + r)"
proof -
  let ?c = "((q0 * 64 + q1) * 64 + q2) * 64 + r"
  have lo: "0xFFFF < ?c" using assms by (cases "q0 = 0") simp_all
  have hi: "?c \<le> 0x10FFFF"
  proof (cases "q0 = 4")
    case True
    with assms show ?thesis by simp
  next
    case False
    with assms(1) have "q0 \<le> 3" by linarith
    moreover have "?c = q0 * 262144 + q1 * 4096 + q2 * 64 + r" by simp
    ultimately show ?thesis using assms(2-4) by linarith
  qed
  have d: "?c div 64 = (q0 * 64 + q1) * 64 + q2" "?c mod 64 = r"
    by (rule dm64 [OF assms(4)])+
  have d2: "((q0 * 64 + q1) * 64 + q2) div 64 = q0 * 64 + q1"
    "((q0 * 64 + q1) * 64 + q2) mod 64 = q2"
    by (rule dm64 [OF assms(3)])+
  have d3: "(q0 * 64 + q1) div 64 = q0" "(q0 * 64 + q1) mod 64 = q1"
    by (rule dm64 [OF assms(2)])+
  from lo have "utf8_bytes ?c = [0xF0 + ?c div 262144, 0x80 + (?c div 4096) mod 64,
      0x80 + (?c div 64) mod 64, 0x80 + ?c mod 64]"
    unfolding utf8_bytes_def by simp
  then have "utf8_bytes ?c = [0xF0 + q0, 0x80 + q1, 0x80 + q2, 0x80 + r]"
    unfolding div_4096 div_262144 d d2 d3 .
  moreover have "is_scalar ?c" using lo hi by (simp add: is_scalar_def is_surrogate_def)
  ultimately show ?thesis by simp
qed

lemma cont_last:
  assumes "utf8_decoder cp n k lo hi bs = Some cs" and "n = Suc k"
  shows "\<exists>b bs' cs'. bs = b # bs' \<and> lo \<le> b \<and> b \<le> hi \<and> cs = (cp * 64 + b mod 64) # cs'
           \<and> utf8_decoder 0 0 0 0x80 0xBF bs' = Some cs'"
  using assms by (cases bs) (auto split: if_splits)

lemma cont_more:
  assumes "utf8_decoder cp n k lo hi bs = Some cs" and "n \<noteq> 0" and "Suc k \<noteq> n"
  shows "\<exists>b bs'. bs = b # bs' \<and> lo \<le> b \<and> b \<le> hi
           \<and> utf8_decoder (cp * 64 + b mod 64) n (Suc k) 0x80 0xBF bs' = Some cs"
  using assms by (cases bs) (auto split: if_splits)

lemma lead_cases:
  assumes "utf8_decoder 0 0 0 0x80 0xBF (b # bs) = Some cs"
  shows "(b \<le> 0x7F \<and> (\<exists>cs'. cs = b # cs' \<and> utf8_decoder 0 0 0 0x80 0xBF bs = Some cs'))
       \<or> (0xC2 \<le> b \<and> b \<le> 0xDF \<and> utf8_decoder (b mod 32) 1 0 0x80 0xBF bs = Some cs)
       \<or> (0xE0 \<le> b \<and> b \<le> 0xEF
            \<and> utf8_decoder (b mod 16) 2 0 (if b = 0xE0 then 0xA0 else 0x80)
                 (if b = 0xED then 0x9F else 0xBF) bs = Some cs)
       \<or> (0xF0 \<le> b \<and> b \<le> 0xF4
            \<and> utf8_decoder (b mod 8) 3 0 (if b = 0xF0 then 0x90 else 0x80)
                 (if b = 0xF4 then 0x8F else 0xBF) bs = Some cs)"
  using assms by (auto split: if_splits)

lemma cont_byte:
  assumes "0x80 \<le> (b::nat)" and "b \<le> 0xBF"
  obtains r where "b = 0x80 + r" "r < 64" "b mod 64 = r"
proof -
  have "b = 0x80 + (b - 0x80)" "b - 0x80 < 64" using assms by linarith+
  moreover from this have "b mod 64 = b - 0x80" using mod_strip(4) [of "b - 0x80"] by simp
  ultimately show ?thesis using that by blast
qed

lemma utf8_decoder_sound:
  "utf8_decoder 0 0 0 0x80 0xBF bs = Some cs \<Longrightarrow> list_all is_scalar cs \<and> utf8_encode cs = bs"
proof (induction bs arbitrary: cs rule: length_induct)
  case (1 bs)
  note IH = "1.IH" [rule_format]
  show ?case
  proof (cases bs)
    case Nil
    with "1.prems" show ?thesis by (simp add: utf8_encode_def)
  next
    case (Cons b bs1)
    from lead_cases [OF "1.prems" [unfolded Cons]]
    consider
      (one) cs' where "b \<le> 0x7F" "cs = b # cs'" "utf8_decoder 0 0 0 0x80 0xBF bs1 = Some cs'"
    | (two) "0xC2 \<le> b" "b \<le> 0xDF" "utf8_decoder (b mod 32) 1 0 0x80 0xBF bs1 = Some cs"
    | (three) "0xE0 \<le> b" "b \<le> 0xEF"
        "utf8_decoder (b mod 16) 2 0 (if b = 0xE0 then 0xA0 else 0x80)
           (if b = 0xED then 0x9F else 0xBF) bs1 = Some cs"
    | (four) "0xF0 \<le> b" "b \<le> 0xF4"
        "utf8_decoder (b mod 8) 3 0 (if b = 0xF0 then 0x90 else 0x80)
           (if b = 0xF4 then 0x8F else 0xBF) bs1 = Some cs"
      by blast
    then show ?thesis
    proof cases
      case one
      have "list_all is_scalar cs' \<and> utf8_encode cs' = bs1"
        using IH [of bs1 cs'] one(3) Cons by simp
      with one(1,2) bytes_one [of b] Cons show ?thesis by (simp add: utf8_encode_def)
    next
      case two
      from cont_last [OF two(3)] obtain b1 bs2 cs' where
        x: "bs1 = b1 # bs2" "0x80 \<le> b1" "b1 \<le> 0xBF" "cs = (b mod 32 * 64 + b1 mod 64) # cs'"
          "utf8_decoder 0 0 0 0x80 0xBF bs2 = Some cs'"
        by auto
      obtain r where r: "b1 = 0x80 + r" "r < 64" "b1 mod 64 = r"
        using cont_byte [OF x(2,3)] by blast
      define q where "q = b - 0xC0"
      have q: "b = 0xC0 + q" "2 \<le> q" "q \<le> 31" using two(1,2) by (simp_all add: q_def)
      have m: "b mod 32 = q" unfolding q(1) using q(3) by (intro mod_strip) simp
      have rest: "list_all is_scalar cs' \<and> utf8_encode cs' = bs2"
        using IH [of bs2 cs'] x(1,5) Cons by simp
      have cs: "cs = (q * 64 + r) # cs'" using x(4) by (simp only: m r(3))
      have bs: "bs = (0xC0 + q) # (0x80 + r) # bs2"
        using Cons x(1) q(1) r(1) by simp
      from bytes_two [OF q(2,3) r(2)] rest show ?thesis
        unfolding cs bs by (simp add: utf8_encode_def)
    next
      case three
      from cont_more [OF three(3)] obtain b1 bs2 where
        x: "bs1 = b1 # bs2" "(if b = 0xE0 then 0xA0 else 0x80) \<le> b1"
          "b1 \<le> (if b = 0xED then 0x9F else 0xBF)"
          "utf8_decoder (b mod 16 * 64 + b1 mod 64) 2 (Suc 0) 0x80 0xBF bs2 = Some cs"
        by auto
      from cont_last [OF x(4)] obtain b2 bs3 cs' where
        y: "bs2 = b2 # bs3" "0x80 \<le> b2" "b2 \<le> 0xBF"
          "cs = ((b mod 16 * 64 + b1 mod 64) * 64 + b2 mod 64) # cs'"
          "utf8_decoder 0 0 0 0x80 0xBF bs3 = Some cs'"
        by auto
      have b1: "0x80 \<le> b1" "b1 \<le> 0xBF" using x(2,3) by (auto split: if_splits)
      obtain q2 where q2: "b1 = 0x80 + q2" "q2 < 64" "b1 mod 64 = q2"
        using cont_byte [OF b1] by blast
      obtain r where r: "b2 = 0x80 + r" "r < 64" "b2 mod 64 = r"
        using cont_byte [OF y(2,3)] by blast
      define q1 where "q1 = b - 0xE0"
      have q1: "b = 0xE0 + q1" "q1 \<le> 15" using three(1,2) by (simp_all add: q1_def)
      have m: "b mod 16 = q1" unfolding q1(1) using q1(2) by (intro mod_strip) simp
      have c1: "q1 = 0 \<longrightarrow> 32 \<le> q2" using x(2) q1(1) q2(1) by (auto split: if_splits)
      have c2: "q1 = 13 \<longrightarrow> q2 < 32" using x(3) q1(1) q2(1) by (auto split: if_splits)
      have rest: "list_all is_scalar cs' \<and> utf8_encode cs' = bs3"
        using IH [of bs3 cs'] x(1) y(1,5) Cons by simp
      have cs: "cs = ((q1 * 64 + q2) * 64 + r) # cs'" using y(4) by (simp only: m q2(3) r(3))
      have bs: "bs = (0xE0 + q1) # (0x80 + q2) # (0x80 + r) # bs3"
        using Cons x(1) y(1) q1(1) q2(1) r(1) by simp
      from bytes_three [OF q1(2) q2(2) r(2) c1 c2] rest show ?thesis
        unfolding cs bs by (simp add: utf8_encode_def)
    next
      case four
      from cont_more [OF four(3)] obtain b1 bs2 where
        x: "bs1 = b1 # bs2" "(if b = 0xF0 then 0x90 else 0x80) \<le> b1"
          "b1 \<le> (if b = 0xF4 then 0x8F else 0xBF)"
          "utf8_decoder (b mod 8 * 64 + b1 mod 64) 3 (Suc 0) 0x80 0xBF bs2 = Some cs"
        by auto
      from cont_more [OF x(4)] obtain b2 bs3 where
        y: "bs2 = b2 # bs3" "0x80 \<le> b2" "b2 \<le> 0xBF"
          "utf8_decoder ((b mod 8 * 64 + b1 mod 64) * 64 + b2 mod 64) 3 (Suc (Suc 0)) 0x80 0xBF bs3
             = Some cs"
        by auto
      from cont_last [OF y(4)] obtain b3 bs4 cs' where
        z: "bs3 = b3 # bs4" "0x80 \<le> b3" "b3 \<le> 0xBF"
          "cs = (((b mod 8 * 64 + b1 mod 64) * 64 + b2 mod 64) * 64 + b3 mod 64) # cs'"
          "utf8_decoder 0 0 0 0x80 0xBF bs4 = Some cs'"
        by auto
      have b1: "0x80 \<le> b1" "b1 \<le> 0xBF" using x(2,3) by (auto split: if_splits)
      obtain q1 where q1: "b1 = 0x80 + q1" "q1 < 64" "b1 mod 64 = q1"
        using cont_byte [OF b1] by blast
      obtain q2 where q2: "b2 = 0x80 + q2" "q2 < 64" "b2 mod 64 = q2"
        using cont_byte [OF y(2,3)] by blast
      obtain r where r: "b3 = 0x80 + r" "r < 64" "b3 mod 64 = r"
        using cont_byte [OF z(2,3)] by blast
      define q0 where "q0 = b - 0xF0"
      have q0: "b = 0xF0 + q0" "q0 \<le> 4" using four(1,2) by (simp_all add: q0_def)
      have m: "b mod 8 = q0" unfolding q0(1) using q0(2) by (intro mod_strip) simp
      have c1: "q0 = 0 \<longrightarrow> 16 \<le> q1" using x(2) q0(1) q1(1) by (auto split: if_splits)
      have c2: "q0 = 4 \<longrightarrow> q1 < 16" using x(3) q0(1) q1(1) by (auto split: if_splits)
      have rest: "list_all is_scalar cs' \<and> utf8_encode cs' = bs4"
        using IH [of bs4 cs'] x(1) y(1) z(1,5) Cons by simp
      have cs: "cs = (((q0 * 64 + q1) * 64 + q2) * 64 + r) # cs'"
        using z(4) by (simp only: m q1(3) q2(3) r(3))
      have bs: "bs = (0xF0 + q0) # (0x80 + q1) # (0x80 + q2) # (0x80 + r) # bs4"
        using Cons x(1) y(1) z(1) q0(1) q1(1) q2(1) r(1) by simp
      from bytes_four [OF q0(2) q1(2) q2(2) r(2) c1 c2] rest show ?thesis
        unfolding cs bs by (simp add: utf8_encode_def)
    qed
  qed
qed

lemma utf8_decode_iff:
  "utf8_decode bs = Some cs \<longleftrightarrow> list_all is_scalar cs \<and> utf8_encode cs = bs"
proof
  assume "utf8_decode bs = Some cs"
  then show "list_all is_scalar cs \<and> utf8_encode cs = bs"
    unfolding utf8_decode_def by (rule utf8_decoder_sound)
next
  assume "list_all is_scalar cs \<and> utf8_encode cs = bs"
  with utf8_decode_encode [of cs "[]"] show "utf8_decode bs = Some cs"
    by (auto simp: utf8_decode_def)
qed

lemma valid_utf8_iff: "valid_utf8 d \<longleftrightarrow> utf8_decode (map unat d) \<noteq> None"
  unfolding valid_utf8_def using utf8_decode_iff [of "map unat d"] by auto

lemma utf8_encode_range:
  "list_all is_scalar cs \<Longrightarrow> b \<in> set (utf8_encode cs) \<Longrightarrow> b < 256"
  by (auto simp: utf8_encode_def list_all_iff dest: utf8_bytes_range)

lemma unat_of_nat_bytes:
  "\<forall>b \<in> set bs. b < 256 \<Longrightarrow> map unat (map of_nat bs :: byte list) = bs"
  by (induction bs) (simp_all add: unat_of_nat)

lemma scalars_of_scalar:
  "\<forall>u \<in> set us. u < 65536 \<Longrightarrow> list_all is_scalar (scalars_of us)"
proof (induction us rule: scalars_of.induct)
  case 1
  then show ?case by simp
next
  case (2 u)
  then show ?case by (simp add: is_scalar_def is_surrogate_def)
next
  case (3 u v us)
  show ?case
  proof (cases "is_lead u \<and> is_trail v")
    case True
    then have "u - 0xD800 \<le> 0x3FF" "v - 0xDC00 \<le> 0x3FF"
      unfolding is_lead_def is_trail_def by linarith+
    then have "is_scalar (0x10000 + (u - 0xD800) * 0x400 + (v - 0xDC00))"
      by (simp add: is_scalar_def is_surrogate_def)
    moreover have "list_all is_scalar (scalars_of us)"
      using True "3.IH"(1) "3.prems" by simp
    ultimately show ?thesis using True by simp
  next
    case False
    then have e: "scalars_of (u # v # us)
        = (if is_surrogate u then 0xFFFD else u) # scalars_of (v # us)"
      by auto
    have "is_scalar (if is_surrogate u then 0xFFFD else u)"
      using "3.prems" by (simp add: is_scalar_def is_surrogate_def)
    moreover have "list_all is_scalar (scalars_of (v # us))"
      using False "3.IH"(2) "3.prems" by simp
    ultimately show ?thesis unfolding e by simp
  qed
qed

lemma units_of_scalars_of:
  "well_formed us \<Longrightarrow> \<forall>u \<in> set us. u < 65536 \<Longrightarrow> units_of (scalars_of us) = us"
proof (induction us rule: scalars_of.induct)
  case 1
  then show ?case by simp
next
  case (2 u)
  then show ?case by simp
next
  case (3 u v us)
  show ?case
  proof (cases "is_lead u \<and> is_trail v")
    case True
    define h where "h = u - 0xD800"
    define l where "l = v - 0xDC00"
    from True have u: "u = 0xD800 + h" and v: "v = 0xDC00 + l" and l: "l < 0x400"
      unfolding h_def l_def is_lead_def is_trail_def by linarith+
    have dm: "(h * 0x400 + l) div 0x400 = h" "(h * 0x400 + l) mod 0x400 = l"
      using l by simp_all
    from True 3 have "units_of (scalars_of us) = us" by simp
    with True dm show ?thesis
      by (simp add: h_def [symmetric] l_def [symmetric] u v)
  next
    case False
    with 3 show ?thesis by auto
  qed
qed

lemma strip_bom_scalars_of:
  "us = [] \<or> hd us \<noteq> 0xFEFF \<Longrightarrow> strip_bom (scalars_of us) = scalars_of us"
  by (induction us rule: scalars_of.induct) (auto simp: is_surrogate_def)

lemma TextDecoder_TextEncoder:
  assumes "well_formed (map unat t)" and "t = [] \<or> hd t \<noteq> 0xFEFF"
  shows "TextDecoder_decode (TextEncoder_encode t) = Some t"
proof -
  let ?us = "map unat t"
  let ?cs = "scalars_of ?us"
  have r: "\<forall>u \<in> set ?us. u < 65536"
  proof
    fix u assume "u \<in> set ?us"
    then obtain w :: codeunit where "u = unat w" by auto
    then show "u < 65536" using unsigned_less [of w, where ?'a = nat] by simp
  qed
  have sc: "list_all is_scalar ?cs" using r by (rule scalars_of_scalar)
  have "\<forall>b \<in> set (utf8_encode ?cs). b < 256"
    using utf8_encode_range [OF sc] by blast
  then have b: "map unat (TextEncoder_encode t) = utf8_encode ?cs"
    unfolding TextEncoder_encode_def by (rule unat_of_nat_bytes)
  have d: "utf8_decode (utf8_encode ?cs) = Some ?cs"
    using utf8_decode_encode [OF sc, of "[]"] by (simp add: utf8_decode_def)
  have "?us = [] \<or> hd ?us \<noteq> 0xFEFF"
  proof (cases t)
    case Nil
    then show ?thesis by simp
  next
    case (Cons w ws)
    with assms(2) have "w \<noteq> 0xFEFF" by simp
    have "unat w \<noteq> 0xFEFF"
    proof
      assume "unat w = 0xFEFF"
      then have "(of_nat (unat w) :: codeunit) = of_nat 0xFEFF" by (rule arg_cong)
      then have "w = 0xFEFF" by simp
      with \<open>w \<noteq> 0xFEFF\<close> show False by simp
    qed
    with Cons show ?thesis by simp
  qed
  then have s: "strip_bom ?cs = ?cs" by (rule strip_bom_scalars_of)
  have u: "units_of ?cs = ?us" using assms(1) r by (rule units_of_scalars_of)
  have "map of_nat ?us = t" by (simp add: comp_def)
  then show ?thesis
    by (simp add: TextDecoder_decode_def b d s u)
qed

text \<open>\<open>convertData\<close> on valid and on invalid bytes.\<close>

lemma convertData_valid:
  assumes "list_all is_scalar cs" and "utf8_encode cs = map unat d"
  shows "convertData d = JString (map of_nat (units_of (strip_bom cs)))"
proof -
  from assms have "utf8_decode (map unat d) = Some cs" by (simp add: utf8_decode_iff)
  then show ?thesis by (simp add: convertData_def TextDecoder_decode_def)
qed

lemma convertData_invalid:
  assumes "\<not> valid_utf8 d"
  shows "convertData d = JBlob d []"
proof -
  from assms have "utf8_decode (map unat d) = None" by (simp add: valid_utf8_iff)
  then show ?thesis by (simp add: convertData_def TextDecoder_decode_def)
qed

lemma truncated_invalid:
  assumes "list_all is_scalar cs" and "is_scalar c" and "0 < n" and "n < length (utf8_bytes c)"
  shows "\<not> valid_utf8 (map of_nat (utf8_encode cs @ take n (utf8_bytes c)))"
proof -
  let ?bs = "utf8_encode cs @ take n (utf8_bytes c)"
  have "\<forall>b \<in> set ?bs. b < 256"
    using utf8_encode_range [OF assms(1)] utf8_bytes_range [OF assms(2)]
    by (auto dest: in_set_takeD)
  then have u: "map unat (map of_nat ?bs :: byte list) = ?bs" by (rule unat_of_nat_bytes)
  have "utf8_decode ?bs = map_option ((@) cs) (utf8_decode (take n (utf8_bytes c)))"
    by (rule utf8_decode_encode [OF assms(1)])
  also have "\<dots> = None"
    using decoder_truncated [OF assms(2-4)] by (simp add: utf8_decode_def)
  finally show ?thesis unfolding valid_utf8_iff u by simp
qed

text \<open>What the encoder gives: bytes that decode to the scalar values of the string.\<close>

lemma units_bound: "\<forall>u \<in> set (map unat (t :: jsstring)). u < 65536"
proof
  fix u assume "u \<in> set (map unat t)"
  then obtain w :: codeunit where "u = unat w" by auto
  then show "u < 65536" using unsigned_less [of w, where ?'a = nat] by simp
qed

lemma TextEncoder_encode_decodes:
  "utf8_decode (map unat (TextEncoder_encode t)) = Some (scalars_of (map unat t))"
  and TextEncoder_encode_scalars: "list_all is_scalar (scalars_of (map unat t))"
proof -
  let ?cs = "scalars_of (map unat t)"
  show sc: "list_all is_scalar ?cs" using units_bound by (rule scalars_of_scalar)
  have "\<forall>b \<in> set (utf8_encode ?cs). b < 256"
    using utf8_encode_range [OF sc] by blast
  then have b: "map unat (TextEncoder_encode t) = utf8_encode ?cs"
    unfolding TextEncoder_encode_def by (rule unat_of_nat_bytes)
  have d: "utf8_decode (utf8_encode ?cs) = Some ?cs"
    using utf8_decode_encode [OF sc, of "[]"] by (simp add: utf8_decode_def)
  show "utf8_decode (map unat (TextEncoder_encode t)) = Some ?cs"
    unfolding b by (rule d)
qed

lemma units_of_scalars_of_string:
  assumes "well_formed (map unat (t :: jsstring))"
  shows "map of_nat (units_of (scalars_of (map unat t))) = t"
proof -
  have "units_of (scalars_of (map unat t)) = map unat t"
    using assms units_bound by (rule units_of_scalars_of)
  then show ?thesis by (simp add: comp_def)
qed

lemma lone_surrogate:
  "is_surrogate (unat u) \<Longrightarrow> TextEncoder_encode [u] = [0xEF, 0xBF, 0xBD]"
  by (simp add: TextEncoder_encode_def utf8_encode_def utf8_bytes_def)

section \<open>Seeding\<close>

lemma addFile_Inr:
  "addFile name v ro fileSys = Inr fileSys' \<Longrightarrow> readable v"
  by (auto simp: addFile_def readable_def split: jsvalue.splits sum.splits)

lemma addFile_readable:
  "readable v \<Longrightarrow> \<exists>fileSys'. addFile name v ro fileSys = Inr fileSys'"
  by (auto simp: addFile_def readable_def split: jsvalue.splits sum.splits)

lemma addFile_Inl:
  "addFile name v ro fileSys = Inl e \<Longrightarrow>
   \<not> readable v \<and> (v = JOther \<and> e = TypeError \<or> v = JBody (Inl e))"
  by (auto simp: addFile_def readable_def split: jsvalue.splits sum.splits)

lemma add_input_files_known:
  "add_input_files fls s = Inr s' \<Longrightarrow> knownFiles s' = knownFiles s \<union> fst ` set fls"
proof (induction fls arbitrary: s)
  case Nil
  then show ?case by simp
next
  case (Cons a fls)
  obtain name v where a: "a = (name, v)" by (cases a)
  from Cons.prems obtain fileSys where
    r: "add_input_files fls (s\<lparr>fileSystem := fileSys, knownFiles := insert name (knownFiles s)\<rparr>) = Inr s'"
    by (auto simp: a split: sum.splits)
  from Cons.IH [OF r] show ?case by (auto simp: a)
qed

lemma add_input_files_Inl:
  "add_input_files fls s = Inl e \<Longrightarrow>
   \<exists>v \<in> snd ` set fls. \<not> readable v \<and> (v = JOther \<and> e = TypeError \<or> v = JBody (Inl e))"
proof (induction fls arbitrary: s)
  case Nil
  then show ?case by simp
next
  case (Cons a fls)
  obtain name v where a: "a = (name, v)" by (cases a)
  show ?case
  proof (cases "addFile name v True (fileSystem s)")
    case (Inl e')
    with Cons.prems have "e' = e" by (simp add: a)
    with addFile_Inl [OF Inl] show ?thesis by (simp add: a)
  next
    case (Inr fileSys)
    with Cons.prems have
      "add_input_files fls (s\<lparr>fileSystem := fileSys, knownFiles := insert name (knownFiles s)\<rparr>) = Inl e"
      by (simp add: a)
    from Cons.IH [OF this] show ?thesis by auto
  qed
qed

lemma add_input_files_unreadable:
  "\<exists>v \<in> snd ` set fls. \<not> readable v \<Longrightarrow> \<exists>e. add_input_files fls s = Inl e"
proof (induction fls arbitrary: s)
  case Nil
  then show ?case by simp
next
  case (Cons a fls)
  obtain name v where a: "a = (name, v)" by (cases a)
  show ?case
  proof (cases "addFile name v True (fileSystem s)")
    case (Inl e)
    then show ?thesis by (simp add: a)
  next
    case (Inr fileSys)
    then have "readable v" by (rule addFile_Inr)
    with Cons.prems have "\<exists>v \<in> snd ` set fls. \<not> readable v" by (auto simp: a)
    from Cons.IH [OF this] Inr show ?thesis by (simp add: a)
  qed
qed

lemma add_output_placeholder_Inr:
  "\<exists>s'. add_output_placeholder outputFileName s = Inr s' \<and>
     knownFiles s' = knownFiles s \<union> (case outputFileName of None \<Rightarrow> {} | Some name \<Rightarrow> {name})"
  by (simp add: add_output_placeholder_def addFile_def split: option.splits)

lemma add_media_placeholder_Inr:
  "\<exists>s'. add_media_placeholder extractMediaPath s = Inr s' \<and>
     knownFiles s' = knownFiles s \<union>
       (case extractMediaPath of None \<Rightarrow> {}
        | Some name \<Rightarrow> if endsWith name (js ''.zip'') then {name} else {})"
  by (simp add: add_media_placeholder_def addFile_def split: option.splits)

lemma seeding_Inl:
  assumes "seeding opts stdin fls = Inl e"
  shows "\<exists>v \<in> snd ` set fls. \<not> readable v \<and> (v = JOther \<and> e = TypeError \<or> v = JBody (Inl e))"
proof (cases "add_input_files fls \<lparr>fileSystem = system_files stdin, knownFiles = system_paths\<rparr>")
  case (Inl e')
  with assms have "e' = e" by (simp add: seeding_def)
  with add_input_files_Inl [OF Inl] show ?thesis by simp
next
  case (Inr s1)
  obtain s2 where s2: "add_output_placeholder (or_null (output_file opts)) s1 = Inr s2"
    using add_output_placeholder_Inr by blast
  obtain s3 where "add_media_placeholder (or_null (extract_media opts)) s2 = Inr s3"
    using add_media_placeholder_Inr by blast
  with assms Inr s2 show ?thesis by (simp add: seeding_def)
qed

lemma seeding_unreadable:
  assumes "\<exists>v \<in> snd ` set fls. \<not> readable v"
  shows "\<exists>e. seeding opts stdin fls = Inl e"
proof -
  from add_input_files_unreadable [OF assms] obtain e where
    "add_input_files fls \<lparr>fileSystem = system_files stdin, knownFiles = system_paths\<rparr> = Inl e"
    by blast
  then show ?thesis by (simp add: seeding_def)
qed

lemma seeding_known:
  assumes "seeding opts stdin fls = Inr s"
  shows "knownFiles s = KnownPathSet opts fls"
proof -
  from assms obtain s1 where
    s1: "add_input_files fls \<lparr>fileSystem = system_files stdin, knownFiles = system_paths\<rparr> = Inr s1"
    by (cases "add_input_files fls \<lparr>fileSystem = system_files stdin, knownFiles = system_paths\<rparr>")
       (simp_all add: seeding_def)
  obtain s2 where s2: "add_output_placeholder (or_null (output_file opts)) s1 = Inr s2"
    and k2: "knownFiles s2 = knownFiles s1 \<union>
       (case or_null (output_file opts) of None \<Rightarrow> {} | Some name \<Rightarrow> {name})"
    using add_output_placeholder_Inr by blast
  obtain s3 where s3: "add_media_placeholder (or_null (extract_media opts)) s2 = Inr s3"
    and k3: "knownFiles s3 = knownFiles s2 \<union>
       (case or_null (extract_media opts) of None \<Rightarrow> {}
        | Some name \<Rightarrow> if endsWith name (js ''.zip'') then {name} else {})"
    using add_media_placeholder_Inr by blast
  from assms s1 s2 s3 have "s = s3" by (simp add: seeding_def)
  moreover have "knownFiles s1 = system_paths \<union> fst ` set fls"
    using add_input_files_known [OF s1] by simp
  ultimately show ?thesis
    using k2 k3
    by (simp add: KnownPathSet_def or_null_def truthy_def split: option.splits)
qed

lemma addFile_names:
  assumes "addFile name v ro fileSys = Inr fileSys'"
  shows "fst ` set fileSys' = insert name (fst ` set fileSys)"
proof -
  from assms obtain e where "fileSys' = AList.update name e fileSys"
    by (auto simp: addFile_def split: jsvalue.splits sum.splits)
  then show ?thesis by (simp add: dom_update)
qed

lemma add_input_files_names:
  "add_input_files fls s = Inr s' \<Longrightarrow>
   fst ` set (fileSystem s') = fst ` set (fileSystem s) \<union> fst ` set fls"
proof (induction fls arbitrary: s)
  case Nil
  then show ?case by simp
next
  case (Cons a fls)
  obtain name v where a: "a = (name, v)" by (cases a)
  from Cons.prems obtain fileSys where
    f: "addFile name v True (fileSystem s) = Inr fileSys" and
    r: "add_input_files fls (s\<lparr>fileSystem := fileSys, knownFiles := insert name (knownFiles s)\<rparr>) = Inr s'"
    by (auto simp: a split: sum.splits)
  from f have "fst ` set fileSys = insert name (fst ` set (fileSystem s))"
    by (rule addFile_names)
  with Cons.IH [OF r] show ?case by (simp add: a)
qed

lemma system_files_names: "fst ` set (system_files stdin) = system_paths"
  by (auto simp: system_files_def system_paths_def dom_update)

lemma add_output_placeholder_names:
  assumes "add_output_placeholder v s = Inr s'"
  shows "fst ` set (fileSystem s') =
     fst ` set (fileSystem s) \<union> (case v of None \<Rightarrow> {} | Some name \<Rightarrow> {name})"
proof (cases v)
  case None
  with assms show ?thesis by (simp add: add_output_placeholder_def)
next
  case (Some name)
  with assms obtain fileSys where
    a: "addFile name (JBlob [] []) False (fileSystem s) = Inr fileSys"
    and "fileSystem s' = fileSys"
    by (auto simp: add_output_placeholder_def split: sum.splits)
  with addFile_names [OF a] Some show ?thesis by simp
qed

lemma add_media_placeholder_names:
  assumes "add_media_placeholder v s = Inr s'"
  shows "fst ` set (fileSystem s') =
     fst ` set (fileSystem s) \<union> (case v of None \<Rightarrow> {} | Some name \<Rightarrow> {name})"
proof (cases v)
  case None
  with assms show ?thesis by (simp add: add_media_placeholder_def)
next
  case (Some name)
  with assms obtain fileSys where
    a: "addFile name (JBlob [] []) False (fileSystem s) = Inr fileSys"
    and "fileSystem s' = fileSys"
    by (auto simp: add_media_placeholder_def split: sum.splits)
  with addFile_names [OF a] Some show ?thesis by simp
qed

lemma seeding_names:
  assumes "seeding opts stdin fls = Inr s"
  shows "fst ` set (fileSystem s) =
     system_paths \<union> fst ` set fls
     \<union> (case or_null (output_file opts) of None \<Rightarrow> {} | Some name \<Rightarrow> {name})
     \<union> (case or_null (extract_media opts) of None \<Rightarrow> {} | Some name \<Rightarrow> {name})"
proof -
  from assms obtain s1 where
    s1: "add_input_files fls \<lparr>fileSystem = system_files stdin, knownFiles = system_paths\<rparr> = Inr s1"
    by (cases "add_input_files fls \<lparr>fileSystem = system_files stdin, knownFiles = system_paths\<rparr>")
       (simp_all add: seeding_def)
  have n1: "fst ` set (fileSystem s1) = system_paths \<union> fst ` set fls"
    using add_input_files_names [OF s1] by (simp add: system_files_names)
  from assms s1 obtain s2 where
    s2: "add_output_placeholder (or_null (output_file opts)) s1 = Inr s2"
    and s3: "add_media_placeholder (or_null (extract_media opts)) s2 = Inr s"
    by (auto simp: seeding_def split: sum.splits)
  show ?thesis
    unfolding add_media_placeholder_names [OF s3] add_output_placeholder_names [OF s2] n1 ..
qed

section \<open>Harvesting and classification\<close>

text \<open>The own properties after an assignment that did not throw.\<close>

lemma assign_blob_props:
  assumes "assign_blob name d ty ob = Inr ob'"
  shows "props ob' =
     (if name = js ''__proto__'' \<and> map_of (props ob) name = None then props ob
      else AList.update name (JBlob d ty) (props ob))"
  using assms by (auto simp: assign_blob_def split: option.splits if_splits)

lemma assign_blob_map:
  assumes "assign_blob name d ty ob = Inr ob'"
  shows "map_of (props ob') p =
     (if p = name \<and> (name = js ''__proto__'' \<longrightarrow> map_of (props ob) name \<noteq> None)
      then Some (JBlob d ty) else map_of (props ob) p)"
  unfolding assign_blob_props [OF assms] by (auto simp: update_conv')

lemma assign_blob_keys:
  assumes "assign_blob name d ty ob = Inr ob'"
  shows "fst ` set (props ob') =
     fst ` set (props ob)
     \<union> (if name = js ''__proto__'' \<and> name \<notin> fst ` set (props ob) then {} else {name})"
  unfolding assign_blob_props [OF assms] by (auto simp: dom_update map_of_eq_None_iff)

text \<open>Without a property named \<open>__proto__\<close> written, no assignment throws.\<close>

lemma assign_blob_plain:
  assumes "\<not> blob_proto ob" and "name \<noteq> js ''__proto__''"
  shows "\<exists>ob'. assign_blob name d ty ob = Inr ob' \<and> \<not> blob_proto ob'"
  using assms by (simp add: assign_blob_def split: option.splits)

lemma classify_entry_Inr:
  assumes "classify_entry K out ext (name, e) (f, m) = Inr (f', m')"
  obtains (skip) "f' = f" and "m' = m"
      and "\<And>d ro. e = File d ro \<Longrightarrow> name \<in> K \<or> d = []"
    | (files_only) d ro where "e = File d ro" and "name \<notin> K" and "d \<noteq> []"
      and "assign_blob name d [] f = Inr f'" and "m' = m"
      and "Some name = out \<or> Some name = ext"
    | (both) d ro where "e = File d ro" and "name \<notin> K" and "d \<noteq> []"
      and "assign_blob name d [] f = Inr f'" and "assign_blob name d [] m = Inr m'"
      and "Some name \<noteq> out" and "Some name \<noteq> ext"
proof (cases e)
  case (Directory sub)
  with assms have "f' = f" "m' = m" by simp_all
  with Directory show ?thesis by (intro skip) simp_all
next
  case (File d ro)
  show ?thesis
  proof (cases "name \<notin> K \<and> d \<noteq> []")
    case False
    with assms File have "f' = f" "m' = m" by auto
    with False File show ?thesis by (intro skip) auto
  next
    case True
    with assms File obtain f1 where f1: "assign_blob name d [] f = Inr f1"
      by (auto split: sum.splits)
    show ?thesis
    proof (cases "Some name \<noteq> out \<and> Some name \<noteq> ext")
      case False
      with assms File True f1 have "f' = f1" "m' = m" by auto
      with File True f1 False show ?thesis by (intro files_only) auto
    next
      case b: True
      with assms File True f1 obtain m1 where m1: "assign_blob name d [] m = Inr m1"
        by (auto split: sum.splits)
      with assms File True f1 b have "f' = f1" "m' = m1" by auto
      with File True f1 m1 b show ?thesis by (intro both) auto
    qed
  qed
qed

lemma classify_Cons:
  assumes "classify K out ext (x # es) (f, m) = Inr (f', m')"
  obtains name e f1 m1 where "x = (name, e)"
    and "classify_entry K out ext (name, e) (f, m) = Inr (f1, m1)"
    and "classify K out ext es (f1, m1) = Inr (f', m')"
proof -
  obtain name e where x: "x = (name, e)" by (cases x)
  from assms obtain st where st: "classify_entry K out ext (name, e) (f, m) = Inr st"
    and r: "classify K out ext es st = Inr (f', m')"
    by (auto simp: x split: sum.splits)
  obtain f1 m1 where "st = (f1, m1)" by (cases st)
  with x st r that show ?thesis by blast
qed

lemma classify_entry_keys_media:
  assumes "classify_entry K out ext (name, e) (f, m) = Inr (f', m')"
  shows "fst ` set (props m') =
     fst ` set (props m)
     \<union> {p. p = name \<and> (\<exists>d ro. e = File d ro \<and> d \<noteq> []) \<and> p \<notin> K
            \<and> Some p \<noteq> out \<and> Some p \<noteq> ext
            \<and> (p = js ''__proto__'' \<longrightarrow> p \<in> fst ` set (props m))}"
  using assms
proof (cases rule: classify_entry_Inr)
  case skip
  then show ?thesis by auto
next
  case (files_only d ro)
  then show ?thesis by auto
next
  case (both d ro)
  from assign_blob_keys [OF both(5)] both(1-3,6,7) show ?thesis by auto
qed

lemma classify_entry_keys_files:
  assumes "classify_entry K out ext (name, e) (f, m) = Inr (f', m')"
  shows "fst ` set (props f') =
     fst ` set (props f)
     \<union> {p. p = name \<and> (\<exists>d ro. e = File d ro \<and> d \<noteq> []) \<and> p \<notin> K
            \<and> (p = js ''__proto__'' \<longrightarrow> p \<in> fst ` set (props f))}"
  using assms
proof (cases rule: classify_entry_Inr)
  case skip
  then show ?thesis by auto
next
  case (files_only d ro)
  from assign_blob_keys [OF files_only(4)] files_only(1-3) show ?thesis by auto
next
  case (both d ro)
  from assign_blob_keys [OF both(4)] both(1-3) show ?thesis by auto
qed

lemma classify_keys_media:
  "classify K out ext es (f, m) = Inr (f', m') \<Longrightarrow>
   fst ` set (props m') =
     fst ` set (props m)
     \<union> {p. (\<exists>d ro. (p, File d ro) \<in> set es \<and> d \<noteq> []) \<and> p \<notin> K
            \<and> Some p \<noteq> out \<and> Some p \<noteq> ext
            \<and> (p = js ''__proto__'' \<longrightarrow> p \<in> fst ` set (props m))}"
proof (induction es arbitrary: f m)
  case Nil
  then show ?case by simp
next
  case (Cons x es)
  from Cons.prems obtain name e f1 m1 where x: "x = (name, e)"
    and st: "classify_entry K out ext (name, e) (f, m) = Inr (f1, m1)"
    and r: "classify K out ext es (f1, m1) = Inr (f', m')"
    by (rule classify_Cons)
  note k = classify_entry_keys_media [OF st]
  have pm: "js ''__proto__'' \<in> fst ` set (props m1) \<longleftrightarrow> js ''__proto__'' \<in> fst ` set (props m)"
    unfolding k by auto
  show ?case
    unfolding Cons.IH [OF r] x
  proof (intro set_eqI iffI)
    fix p
    assume "p \<in> fst ` set (props m1) \<union>
        {p. (\<exists>d ro. (p, File d ro) \<in> set es \<and> d \<noteq> []) \<and> p \<notin> K \<and> Some p \<noteq> out \<and> Some p \<noteq> ext
            \<and> (p = js ''__proto__'' \<longrightarrow> p \<in> fst ` set (props m1))}"
    then show "p \<in> fst ` set (props m) \<union>
        {p. (\<exists>d ro. (p, File d ro) \<in> set ((name, e) # es) \<and> d \<noteq> []) \<and> p \<notin> K
            \<and> Some p \<noteq> out \<and> Some p \<noteq> ext
            \<and> (p = js ''__proto__'' \<longrightarrow> p \<in> fst ` set (props m))}"
      using pm unfolding k by auto
  next
    fix p
    assume "p \<in> fst ` set (props m) \<union>
        {p. (\<exists>d ro. (p, File d ro) \<in> set ((name, e) # es) \<and> d \<noteq> []) \<and> p \<notin> K
            \<and> Some p \<noteq> out \<and> Some p \<noteq> ext
            \<and> (p = js ''__proto__'' \<longrightarrow> p \<in> fst ` set (props m))}"
    then show "p \<in> fst ` set (props m1) \<union>
        {p. (\<exists>d ro. (p, File d ro) \<in> set es \<and> d \<noteq> []) \<and> p \<notin> K \<and> Some p \<noteq> out \<and> Some p \<noteq> ext
            \<and> (p = js ''__proto__'' \<longrightarrow> p \<in> fst ` set (props m1))}"
      using pm unfolding k by auto
  qed
qed

lemma classify_keys_files:
  "classify K out ext es (f, m) = Inr (f', m') \<Longrightarrow>
   fst ` set (props f') =
     fst ` set (props f)
     \<union> {p. (\<exists>d ro. (p, File d ro) \<in> set es \<and> d \<noteq> []) \<and> p \<notin> K
            \<and> (p = js ''__proto__'' \<longrightarrow> p \<in> fst ` set (props f))}"
proof (induction es arbitrary: f m)
  case Nil
  then show ?case by simp
next
  case (Cons x es)
  from Cons.prems obtain name e f1 m1 where x: "x = (name, e)"
    and st: "classify_entry K out ext (name, e) (f, m) = Inr (f1, m1)"
    and r: "classify K out ext es (f1, m1) = Inr (f', m')"
    by (rule classify_Cons)
  note k = classify_entry_keys_files [OF st]
  have pm: "js ''__proto__'' \<in> fst ` set (props f1) \<longleftrightarrow> js ''__proto__'' \<in> fst ` set (props f)"
    unfolding k by auto
  show ?case
    unfolding Cons.IH [OF r] x
  proof (intro set_eqI iffI)
    fix p
    assume "p \<in> fst ` set (props f1) \<union>
        {p. (\<exists>d ro. (p, File d ro) \<in> set es \<and> d \<noteq> []) \<and> p \<notin> K
            \<and> (p = js ''__proto__'' \<longrightarrow> p \<in> fst ` set (props f1))}"
    then show "p \<in> fst ` set (props f) \<union>
        {p. (\<exists>d ro. (p, File d ro) \<in> set ((name, e) # es) \<and> d \<noteq> []) \<and> p \<notin> K
            \<and> (p = js ''__proto__'' \<longrightarrow> p \<in> fst ` set (props f))}"
      using pm unfolding k by auto
  next
    fix p
    assume "p \<in> fst ` set (props f) \<union>
        {p. (\<exists>d ro. (p, File d ro) \<in> set ((name, e) # es) \<and> d \<noteq> []) \<and> p \<notin> K
            \<and> (p = js ''__proto__'' \<longrightarrow> p \<in> fst ` set (props f))}"
    then show "p \<in> fst ` set (props f1) \<union>
        {p. (\<exists>d ro. (p, File d ro) \<in> set es \<and> d \<noteq> []) \<and> p \<notin> K
            \<and> (p = js ''__proto__'' \<longrightarrow> p \<in> fst ` set (props f1))}"
      using pm unfolding k by auto
  qed
qed

lemma classify_sub:
  "classify K out ext es (f, m) = Inr (f', m') \<Longrightarrow>
   map_of (props m) \<subseteq>\<^sub>m map_of (props f) \<Longrightarrow>
   \<forall>p \<in> fst ` set (props m). Some p \<noteq> out \<and> Some p \<noteq> ext \<Longrightarrow>
   map_of (props m') \<subseteq>\<^sub>m map_of (props f')"
proof (induction es arbitrary: f m)
  case Nil
  then show ?case by simp
next
  case (Cons x es)
  from Cons.prems(1) obtain name e f1 m1 where x: "x = (name, e)"
    and st: "classify_entry K out ext (name, e) (f, m) = Inr (f1, m1)"
    and r: "classify K out ext es (f1, m1) = Inr (f', m')"
    by (rule classify_Cons)
  have nd: "\<And>q. Some q = out \<or> Some q = ext \<Longrightarrow> map_of (props m) q = None"
    using Cons.prems(3) by (force simp: map_of_eq_None_iff)
  have sub: "\<And>q v. map_of (props m) q = Some v \<Longrightarrow> map_of (props f) q = Some v"
    using Cons.prems(2) by (auto simp: map_le_def dom_def)
  from st have "map_of (props m1) \<subseteq>\<^sub>m map_of (props f1)
      \<and> (\<forall>p \<in> fst ` set (props m1). Some p \<noteq> out \<and> Some p \<noteq> ext)"
  proof (cases rule: classify_entry_Inr)
    case skip
    with Cons.prems show ?thesis by simp
  next
    case (files_only d ro)
    from files_only(6) have n: "map_of (props m) name = None" by (rule nd)
    have "map_of (props m) \<subseteq>\<^sub>m map_of (props f1)"
      unfolding map_le_def
    proof
      fix q
      assume "q \<in> dom (map_of (props m))"
      then obtain v where v: "map_of (props m) q = Some v" by auto
      with n have "q \<noteq> name" by auto
      then have "map_of (props f1) q = map_of (props f) q"
        by (simp add: assign_blob_map [OF files_only(4)])
      with v sub show "map_of (props m) q = map_of (props f1) q" by simp
    qed
    with files_only(5) Cons.prems(3) show ?thesis by simp
  next
    case (both d ro)
    have "map_of (props m1) \<subseteq>\<^sub>m map_of (props f1)"
      unfolding map_le_def
    proof
      fix q
      assume "q \<in> dom (map_of (props m1))"
      then obtain v where v: "map_of (props m1) q = Some v" by auto
      show "map_of (props m1) q = map_of (props f1) q"
      proof (cases "q = name \<and> (name = js ''__proto__'' \<longrightarrow> map_of (props m) name \<noteq> None)")
        case True
        then have "name = js ''__proto__'' \<longrightarrow> map_of (props f) name \<noteq> None"
          using sub by auto
        with True show ?thesis
          by (simp add: assign_blob_map [OF both(4)] assign_blob_map [OF both(5)])
      next
        case False
        have m1q: "map_of (props m1) q = map_of (props m) q"
          by (simp only: assign_blob_map [OF both(5)] False if_False)
        with v have fq: "map_of (props f) q = Some v" using sub by simp
        have "map_of (props f1) q = Some v"
        proof (cases "q = name")
          case True
          with False have "map_of (props m) name = None" by simp
          with m1q v True show ?thesis by simp
        next
          case False
          with fq show ?thesis by (simp add: assign_blob_map [OF both(4)])
        qed
        with v show ?thesis by simp
      qed
    qed
    moreover have "\<forall>p \<in> fst ` set (props m1). Some p \<noteq> out \<and> Some p \<noteq> ext"
      unfolding assign_blob_keys [OF both(5)] using Cons.prems(3) both(6,7) by auto
    ultimately show ?thesis by simp
  qed
  with Cons.IH [OF r] show ?case by blast
qed



lemma classify_entry_origin:
  assumes "classify_entry K out ext (name, e) (f, m) = Inr (f', m')"
    and "map_of (props f') p = Some v"
  shows "map_of (props f) p = Some v
       \<or> (\<exists>d ro. p = name \<and> e = File d ro \<and> d \<noteq> [] \<and> p \<notin> K \<and> v = JBlob d [])"
  using assms(1)
proof (cases rule: classify_entry_Inr)
  case skip
  with assms(2) show ?thesis by simp
next
  case (files_only d ro)
  from assms(2) files_only(1-3) show ?thesis
    unfolding assign_blob_map [OF files_only(4)] by (auto split: if_splits)
next
  case (both d ro)
  from assms(2) both(1-3) show ?thesis
    unfolding assign_blob_map [OF both(4)] by (auto split: if_splits)
qed

lemma classify_origin:
  "classify K out ext es (f, m) = Inr (f', m') \<Longrightarrow> map_of (props f') p = Some v \<Longrightarrow>
   map_of (props f) p = Some v
   \<or> (\<exists>d ro. (p, File d ro) \<in> set es \<and> d \<noteq> [] \<and> p \<notin> K \<and> v = JBlob d [])"
proof (induction es arbitrary: f m)
  case Nil
  then show ?case by simp
next
  case (Cons x es)
  from Cons.prems(1) obtain name e f1 m1 where x: "x = (name, e)"
    and st: "classify_entry K out ext (name, e) (f, m) = Inr (f1, m1)"
    and r: "classify K out ext es (f1, m1) = Inr (f', m')"
    by (rule classify_Cons)
  from Cons.IH [OF r Cons.prems(2)] consider "map_of (props f1) p = Some v"
    | d ro where "(p, File d ro) \<in> set es" "d \<noteq> []" "p \<notin> K" "v = JBlob d []"
    by blast
  then show ?case
  proof cases
    case 1
    from classify_entry_origin [OF st 1] show ?thesis by (auto simp: x)
  next
    case 2
    then show ?thesis by auto
  qed
qed

lemma classify_entry_other:
  assumes "classify_entry K out ext (name, e) (f, m) = Inr (f', m')" and "p \<noteq> name"
  shows "map_of (props f') p = map_of (props f) p \<and> map_of (props m') p = map_of (props m) p"
  using assms(1)
proof (cases rule: classify_entry_Inr)
  case skip
  then show ?thesis by simp
next
  case (files_only d ro)
  with assms(2) show ?thesis by (simp add: assign_blob_map [OF files_only(4)])
next
  case (both d ro)
  with assms(2) show ?thesis
    by (simp add: assign_blob_map [OF both(4)] assign_blob_map [OF both(5)])
qed

text \<open>
  The value under a name other than \<open>__proto__\<close>, when the names of the entries are
  distinct, as they are in a \<open>Map\<close>.
\<close>

lemma classify_pointwise:
  "classify K out ext es (f, m) = Inr (f', m') \<Longrightarrow> distinct (map fst es) \<Longrightarrow>
   p \<noteq> js ''__proto__'' \<Longrightarrow>
   map_of (props f') p =
     (case map_of es p of
        Some (File d ro) \<Rightarrow> if p \<notin> K \<and> d \<noteq> [] then Some (JBlob d []) else map_of (props f) p
      | _ \<Rightarrow> map_of (props f) p)
   \<and> map_of (props m') p =
     (case map_of es p of
        Some (File d ro) \<Rightarrow>
          if p \<notin> K \<and> d \<noteq> [] \<and> Some p \<noteq> out \<and> Some p \<noteq> ext then Some (JBlob d [])
          else map_of (props m) p
      | _ \<Rightarrow> map_of (props m) p)"
proof (induction es arbitrary: f m)
  case Nil
  then show ?case by simp
next
  case (Cons x es)
  from Cons.prems(1) obtain name e f1 m1 where x: "x = (name, e)"
    and st: "classify_entry K out ext (name, e) (f, m) = Inr (f1, m1)"
    and r: "classify K out ext es (f1, m1) = Inr (f', m')"
    by (rule classify_Cons)
  from Cons.prems(2) have d: "distinct (map fst es)" and n: "map_of es name = None"
    by (auto simp: x map_of_eq_None_iff)
  note IH = Cons.IH [OF r d Cons.prems(3)]
  show ?case
  proof (cases "p = name")
    case False
    with IH classify_entry_other [OF st False] show ?thesis
      by (simp add: x split: option.splits inode.splits)
  next
    case True
    with n IH have fm: "map_of (props f') p = map_of (props f1) p"
      "map_of (props m') p = map_of (props m1) p" by simp_all
    from st have "map_of (props f1) p =
        (case e of File d ro \<Rightarrow> if p \<notin> K \<and> d \<noteq> [] then Some (JBlob d []) else map_of (props f) p
         | Directory sub \<Rightarrow> map_of (props f) p)
      \<and> map_of (props m1) p =
        (case e of File d ro \<Rightarrow>
             if p \<notin> K \<and> d \<noteq> [] \<and> Some p \<noteq> out \<and> Some p \<noteq> ext then Some (JBlob d [])
             else map_of (props m) p
         | Directory sub \<Rightarrow> map_of (props m) p)"
    proof (cases rule: classify_entry_Inr)
      case skip
      with True show ?thesis by (cases e) auto
    next
      case (files_only d ro)
      with True Cons.prems(3) show ?thesis
        by (auto simp: assign_blob_map [OF files_only(4)])
    next
      case (both d ro)
      with True Cons.prems(3) show ?thesis
        by (auto simp: assign_blob_map [OF both(4)] assign_blob_map [OF both(5)])
    qed
    with fm True show ?thesis by (simp add: x)
  qed
qed

text \<open>The loop does not throw when no entry is named \<open>__proto__\<close>.\<close>

lemma classify_plain:
  "js ''__proto__'' \<notin> fst ` set es \<Longrightarrow> \<not> blob_proto f \<Longrightarrow> \<not> blob_proto m \<Longrightarrow>
   \<exists>f' m'. classify K out ext es (f, m) = Inr (f', m')"
proof (induction es arbitrary: f m)
  case Nil
  then show ?case by simp
next
  case (Cons x es)
  obtain name e where x: "x = (name, e)" by (cases x)
  from Cons.prems(1) have np: "name \<noteq> js ''__proto__''" and rest: "js ''__proto__'' \<notin> fst ` set es"
    by (auto simp: x)
  have "\<exists>f1 m1. classify_entry K out ext (name, e) (f, m) = Inr (f1, m1)
      \<and> \<not> blob_proto f1 \<and> \<not> blob_proto m1"
  proof (cases e)
    case (Directory sub)
    with Cons.prems show ?thesis by simp
  next
    case (File d ro)
    obtain f1 where f1: "assign_blob name d [] f = Inr f1" "\<not> blob_proto f1"
      using assign_blob_plain [OF Cons.prems(2) np] by blast
    obtain m1 where m1: "assign_blob name d [] m = Inr m1" "\<not> blob_proto m1"
      using assign_blob_plain [OF Cons.prems(3) np] by blast
    from f1 m1 Cons.prems(2,3) show ?thesis by (simp add: File)
  qed
  then obtain f1 m1 where st: "classify_entry K out ext (name, e) (f, m) = Inr (f1, m1)"
    and t: "\<not> blob_proto f1" "\<not> blob_proto m1" by blast
  from Cons.IH [OF rest t] st show ?case by (simp add: x)
qed

text \<open>The two reads by name.\<close>

lemma collect_output_Inr:
  assumes "collect_output opts es f = Inr f'"
  obtains (same) "f' = f"
      and "\<And>name d ro. Some name = or_null (output_file opts) \<Longrightarrow>
             map_of es name = Some (File d ro) \<Longrightarrow> d = []"
    | (hit) name d ro where "or_null (output_file opts) = Some name"
      and "map_of es name = Some (File d ro)" and "d \<noteq> []"
      and "assign_blob name d [] f = Inr f'"
proof (cases "\<exists>name d ro. or_null (output_file opts) = Some name
    \<and> map_of es name = Some (File d ro) \<and> d \<noteq> []")
  case True
  then obtain name d ro where h: "or_null (output_file opts) = Some name"
    "map_of es name = Some (File d ro)" "d \<noteq> []" by blast
  then have "output_file opts = Some name" "name \<noteq> []"
    by (auto simp: or_null_def truthy_def split: if_splits option.splits)
  with assms h have "assign_blob name d [] f = Inr f'"
    by (simp add: collect_output_def)
  with h show ?thesis by (rule hit)
next
  case False
  with assms have "f' = f"
    by (auto simp: collect_output_def or_null_def truthy_def
        split: option.splits if_splits inode.splits)
  with False show ?thesis by (intro same) (auto dest: sym)
qed

lemma collect_media_Inr:
  assumes "collect_media opts es f = Inr f'"
  obtains (same) "f' = f"
      and "\<And>name d ro. Some name = or_null (extract_media opts) \<Longrightarrow>
             map_of es name = Some (File d ro) \<Longrightarrow> d = []"
    | (hit) name d ro where "or_null (extract_media opts) = Some name"
      and "map_of es name = Some (File d ro)" and "d \<noteq> []"
      and "assign_blob name d ''application/zip'' f = Inr f'"
proof (cases "\<exists>name d ro. or_null (extract_media opts) = Some name
    \<and> map_of es name = Some (File d ro) \<and> d \<noteq> []")
  case True
  then obtain name d ro where h: "or_null (extract_media opts) = Some name"
    "map_of es name = Some (File d ro)" "d \<noteq> []" by blast
  then have "extract_media opts = Some name" "name \<noteq> []"
    by (auto simp: or_null_def truthy_def split: if_splits option.splits)
  with assms h have "assign_blob name d ''application/zip'' f = Inr f'"
    by (simp add: collect_media_def)
  with h show ?thesis by (rule hit)
next
  case False
  with assms have "f' = f"
    by (auto simp: collect_media_def or_null_def truthy_def
        split: option.splits if_splits inode.splits)
  with False show ?thesis by (intro same) (auto dest: sym)
qed








lemma collect_output_origin:
  assumes "collect_output opts es f = Inr f'" and "map_of (props f') p = Some v"
  shows "map_of (props f) p = Some v
       \<or> (\<exists>d ro. (p, File d ro) \<in> set es \<and> d \<noteq> [] \<and> v = JBlob d [])"
  using assms(1)
proof (cases rule: collect_output_Inr)
  case same
  with assms(2) show ?thesis by simp
next
  case (hit name d ro)
  from hit(2) have "(name, File d ro) \<in> set es" by (rule map_of_SomeD)
  with assms(2) hit(3) show ?thesis
    unfolding assign_blob_map [OF hit(4)] by (auto split: if_splits)
qed

lemma collect_media_origin:
  assumes "collect_media opts es f = Inr f'" and "map_of (props f') p = Some v"
  shows "map_of (props f) p = Some v
       \<or> (\<exists>d ro. (p, File d ro) \<in> set es \<and> d \<noteq> [] \<and> v = JBlob d ''application/zip'')"
  using assms(1)
proof (cases rule: collect_media_Inr)
  case same
  with assms(2) show ?thesis by simp
next
  case (hit name d ro)
  from hit(2) have "(name, File d ro) \<in> set es" by (rule map_of_SomeD)
  with assms(2) hit(3) show ?thesis
    unfolding assign_blob_map [OF hit(4)] by (auto split: if_splits)
qed

lemma collect_output_keys:
  assumes "collect_output opts es f = Inr f'"
  shows "fst ` set (props f') =
     fst ` set (props f)
     \<union> {p. Some p = or_null (output_file opts)
            \<and> (\<exists>d ro. map_of es p = Some (File d ro) \<and> d \<noteq> [])
            \<and> (p = js ''__proto__'' \<longrightarrow> p \<in> fst ` set (props f))}"
  using assms
proof (cases rule: collect_output_Inr)
  case same
  then show ?thesis by auto
next
  case (hit name d ro)
  then show ?thesis unfolding assign_blob_keys [OF hit(4)] by auto
qed

lemma collect_media_keys:
  assumes "collect_media opts es f = Inr f'"
  shows "fst ` set (props f') =
     fst ` set (props f)
     \<union> {p. Some p = or_null (extract_media opts)
            \<and> (\<exists>d ro. map_of es p = Some (File d ro) \<and> d \<noteq> [])
            \<and> (p = js ''__proto__'' \<longrightarrow> p \<in> fst ` set (props f))}"
  using assms
proof (cases rule: collect_media_Inr)
  case same
  then show ?thesis by auto
next
  case (hit name d ro)
  then show ?thesis unfolding assign_blob_keys [OF hit(4)] by auto
qed

text \<open>The first read by name starts from the clone and does not throw.\<close>

lemma collect_output_clone:
  "\<exists>f'. collect_output opts es \<lparr>props = fls, blob_proto = False\<rparr> = Inr f'"
  by (simp add: collect_output_def assign_blob_def split: option.splits inode.splits)

lemma collect_output_plain:
  assumes "js ''__proto__'' \<notin> fst ` set es" and "\<not> blob_proto f"
  shows "\<exists>f'. collect_output opts es f = Inr f' \<and> \<not> blob_proto f'"
proof (cases "\<exists>name d ro. output_file opts = Some name \<and> name \<noteq> []
    \<and> map_of es name = Some (File d ro) \<and> d \<noteq> []")
  case True
  then obtain name d ro where h: "output_file opts = Some name" "name \<noteq> []"
    "map_of es name = Some (File d ro)" "d \<noteq> []" by blast
  from h(3) have "(name, File d ro) \<in> set es" by (rule map_of_SomeD)
  with assms(1) have "name \<noteq> js ''__proto__''" by force
  from assign_blob_plain [OF assms(2) this] h show ?thesis
    by (simp add: collect_output_def)
next
  case False
  with assms(2) show ?thesis
    by (auto simp: collect_output_def split: option.splits inode.splits)
qed

lemma collect_media_plain:
  assumes "js ''__proto__'' \<notin> fst ` set es" and "\<not> blob_proto f"
  shows "\<exists>f'. collect_media opts es f = Inr f' \<and> \<not> blob_proto f'"
proof (cases "\<exists>name d ro. extract_media opts = Some name \<and> name \<noteq> []
    \<and> map_of es name = Some (File d ro) \<and> d \<noteq> []")
  case True
  then obtain name d ro where h: "extract_media opts = Some name" "name \<noteq> []"
    "map_of es name = Some (File d ro)" "d \<noteq> []" by blast
  from h(3) have "(name, File d ro) \<in> set es" by (rule map_of_SomeD)
  with assms(1) have "name \<noteq> js ''__proto__''" by force
  from assign_blob_plain [OF assms(2) this] h show ?thesis
    by (simp add: collect_media_def)
next
  case False
  with assms(2) show ?thesis
    by (auto simp: collect_media_def split: option.splits inode.splits)
qed

text \<open>The harvest of the files does not throw when no entry is named \<open>__proto__\<close>.\<close>

lemma harvest_files_plain:
  assumes "js ''__proto__'' \<notin> fst ` set es"
  shows "\<exists>fm. harvest_files opts K fls es = Inr fm"
proof -
  obtain f1 where f1: "collect_output opts es \<lparr>props = fls, blob_proto = False\<rparr> = Inr f1"
    "\<not> blob_proto f1"
    using collect_output_plain [OF assms, of "\<lparr>props = fls, blob_proto = False\<rparr>"] by auto
  obtain f2 where f2: "collect_media opts es f1 = Inr f2" "\<not> blob_proto f2"
    using collect_media_plain [OF assms f1(2)] by blast
  obtain f' m' where "classify K (or_null (output_file opts)) (or_null (extract_media opts)) es
      (f2, \<lparr>props = [], blob_proto = False\<rparr>) = Inr (f', m')"
    using classify_plain [OF assms f2(2), of "\<lparr>props = [], blob_proto = False\<rparr>" K
        "or_null (output_file opts)" "or_null (extract_media opts)"] by auto
  with f1 f2 show ?thesis by (simp add: harvest_files_def)
qed

lemma harvest_files_Inr:
  assumes "harvest_files opts K fls es = Inr (f', m')"
  obtains f1 f2 where "collect_output opts es \<lparr>props = fls, blob_proto = False\<rparr> = Inr f1"
    and "collect_media opts es f1 = Inr f2"
    and "classify K (or_null (output_file opts)) (or_null (extract_media opts)) es
           (f2, \<lparr>props = [], blob_proto = False\<rparr>) = Inr (f', m')"
  using assms by (auto simp: harvest_files_def split: sum.splits)

lemma convert_Inr:
  assumes "convert run JSON_parse opts stdin fls = Inr r"
  obtains s eff where "seeding opts stdin fls = Inr s" "run opts (fileSystem s) = Inr eff"
    "harvesting JSON_parse opts (knownFiles s) fls eff = Inr r"
  using assms by (auto simp: convert_def split: sum.splits)

lemma harvesting_Inr:
  assumes "harvesting JSON_parse opts K fls eff = Inr r"
  obtains f' m' raw where "harvest_files opts K fls (entries eff) = Inr (f', m')"
    and "files r = props f'" and "mediaFiles r = props m'"
    and "TextDecoder_decode (warnings_file_data eff) = Some raw"
    and "warnings r = parse_warnings JSON_parse raw"
    and "TextDecoder_decode (out_file_data eff) = Some (stdout r)"
    and "TextDecoder_decode (err_file_data eff) = Some (stderr r)"
  using assms by (auto simp: harvesting_def split: sum.splits option.splits prod.splits)

text \<open>What a run that returns has gone through.\<close>

lemma convert_run:
  assumes "seeding opts stdin fls = Inr s" and "run opts (fileSystem s) = Inr eff"
    and "convert run JSON_parse opts stdin fls = Inr r"
  obtains f1 f2 f' m' where
    "collect_output opts (entries eff) \<lparr>props = fls, blob_proto = False\<rparr> = Inr f1"
    and "collect_media opts (entries eff) f1 = Inr f2"
    and "classify (knownFiles s) (or_null (output_file opts)) (or_null (extract_media opts))
           (entries eff) (f2, \<lparr>props = [], blob_proto = False\<rparr>) = Inr (f', m')"
    and "files r = props f'" and "mediaFiles r = props m'"
proof -
  from assms have h: "harvesting JSON_parse opts (knownFiles s) fls eff = Inr r"
    by (simp add: convert_def)
  from h obtain f' m' where hf: "harvest_files opts (knownFiles s) fls (entries eff) = Inr (f', m')"
    and r: "files r = props f'" "mediaFiles r = props m'"
    by (rule harvesting_Inr)
  from hf obtain f1 f2 where
    "collect_output opts (entries eff) \<lparr>props = fls, blob_proto = False\<rparr> = Inr f1"
    "collect_media opts (entries eff) f1 = Inr f2"
    "classify (knownFiles s) (or_null (output_file opts)) (or_null (extract_media opts))
           (entries eff) (f2, \<lparr>props = [], blob_proto = False\<rparr>) = Inr (f', m')"
    by (rule harvest_files_Inr)
  with r that show ?thesis by blast
qed

lemma underneath_slash:
  assumes "underneath dir p"
  shows "0x2F \<in> set p" and "p \<noteq> dir"
proof -
  from assms have t: "take (length dir + 1) p = dir @ [0x2F]"
    by (simp add: underneath_def js_def)
  have "0x2F \<in> set (take (length dir + 1) p)" unfolding t by simp
  then show "0x2F \<in> set p" by (rule in_set_takeD)
  from t have "length (take (length dir + 1) p) = length dir + 1" by simp
  then show "p \<noteq> dir" by auto
qed

lemma underneath_not_system: "underneath dir p \<Longrightarrow> p \<notin> system_paths"
  using underneath_slash(1) [of dir p] by (auto simp: system_paths_def js_def)

section \<open>The example runs, evaluated\<close>

lemmas ex_defs =
  ex_dir_opts_def ex_dir_files_def ex_dir_run_def ex_dir_seeded_def ex_dir_effect_def
  ex_dir_result_def ex_zip_opts_def ex_zip_run_def ex_zip_seeded_def ex_zip_effect_def
  ex_zip_result_def ex_out_opts_def ex_out_run_def ex_out_seeded_def ex_out_effect_def
  ex_out_result_def ex_empty_opts_def ex_warn_run_def ex_warn_effect_def
  ex_null_run_def ex_null_effect_def ex_proto_run_def ex_proto_effect_def ex_proto_result_def
  ex_throw_run_def ex_abort_run_def ex_abort_effect_def ex_nested_run_def ex_nested_effect_def ex_nested_result_def
  ex_img_run_def ex_img_seeded_def ex_img_effect_def ex_img_result_def
  ex_body_files_def ex_body_seeded_def ex_body_result_def

lemma ex_dir_seeding: "seeding ex_dir_opts None ex_dir_files = Inr ex_dir_seeded"
  by (simp add: run_defs ex_defs insert_commute)

lemma ex_dir_module: "ex_dir_run ex_dir_opts (fileSystem ex_dir_seeded) = Inr ex_dir_effect"
  by (simp add: run_defs ex_defs)

lemma ex_dir_convert:
  "convert ex_dir_run parse_nothing ex_dir_opts None ex_dir_files = Inr ex_dir_result"
  by (simp add: run_defs ex_defs)

lemma ex_zip_seeding: "seeding ex_zip_opts None [] = Inr ex_zip_seeded"
  by (simp add: run_defs ex_defs insert_commute)

lemma ex_zip_module: "ex_zip_run ex_zip_opts (fileSystem ex_zip_seeded) = Inr ex_zip_effect"
  by (simp add: run_defs ex_defs)

lemma ex_zip_convert: "convert ex_zip_run parse_nothing ex_zip_opts None [] = Inr ex_zip_result"
  by (simp add: run_defs ex_defs)

lemma ex_out_seeding: "seeding ex_out_opts None [] = Inr ex_out_seeded"
  by (simp add: run_defs ex_defs insert_commute)


lemma ex_out_convert: "convert ex_out_run parse_nothing ex_out_opts None [] = Inr ex_out_result"
  by (simp add: run_defs ex_defs)



lemma ex_proto_module: "ex_proto_run ex_out_opts (fileSystem ex_out_seeded) = Inr ex_proto_effect"
  by (simp add: run_defs ex_defs)

lemma ex_proto_convert:
  "convert ex_proto_run parse_nothing ex_out_opts None [] = Inr ex_proto_result"
  by (simp add: run_defs ex_defs)

lemma ex_throw_convert: "convert ex_throw_run parse_nothing ex_out_opts None [] = Inl TypeError"
  by (simp add: run_defs ex_defs)



lemma ex_nested_module:
  "ex_nested_run ex_dir_opts (fileSystem ex_dir_seeded) = Inr ex_nested_effect"
  by (simp add: run_defs ex_defs)

lemma ex_nested_convert:
  "convert ex_nested_run parse_nothing ex_dir_opts None ex_dir_files = Inr ex_nested_result"
  by (simp add: run_defs ex_defs)

lemma ex_img_seeding: "seeding ex_out_opts None ex_dir_files = Inr ex_img_seeded"
  by (simp add: run_defs ex_defs insert_commute)

lemma ex_img_module: "ex_img_run ex_out_opts (fileSystem ex_img_seeded) = Inr ex_img_effect"
  by (simp add: run_defs ex_defs)

lemma ex_img_convert:
  "convert ex_img_run parse_nothing ex_out_opts None ex_dir_files = Inr ex_img_result"
  by (simp add: run_defs ex_defs)

lemma ex_body_seeding: "seeding ex_out_opts None ex_body_files = Inr ex_body_seeded"
  by (simp add: run_defs ex_defs insert_commute)

lemma ex_body_convert:
  "convert ex_out_run parse_nothing ex_out_opts None ex_body_files = Inr ex_body_result"
  by (simp add: run_defs ex_defs)

section \<open>What the loop harvests\<close>

text \<open>
  A non-empty file that the module leaves under a path outside the known set, when the
  path is not \<open>__proto__\<close>: \<open>files\<close> maps the path to a blob of the content, and so
  does \<open>mediaFiles\<close>, unless the path is the declared output path or the extraction
  target path.
\<close>

lemma unknown_entry_harvested:
  assumes "seeding opts stdin fls = Inr s"
    and "run opts (fileSystem s) = Inr eff"
    and "convert run JSON_parse opts stdin fls = Inr r"
    and "distinct (map fst (entries eff))"
    and "(p, File d ro) \<in> set (entries eff)" and "d \<noteq> []"
    and "p \<notin> knownFiles s" and "p \<noteq> js ''__proto__''"
  shows "map_of (files r) p = Some (JBlob d [])
       \<and> (if Some p = or_null (output_file opts) \<or> Some p = or_null (extract_media opts)
          then map_of (mediaFiles r) p = None
          else map_of (mediaFiles r) p = Some (JBlob d []))"
proof -
  from assms(1-3) obtain f2 f' m' where
    c: "classify (knownFiles s) (or_null (output_file opts)) (or_null (extract_media opts))
           (entries eff) (f2, \<lparr>props = [], blob_proto = False\<rparr>) = Inr (f', m')"
    and fr: "files r = props f'" and mr: "mediaFiles r = props m'"
    by (rule convert_run)
  have e: "map_of (entries eff) p = Some (File d ro)"
    using assms(4,5) by simp
  from classify_pointwise [OF c assms(4,8)] e assms(6,7) show ?thesis
    unfolding fr mr by simp
qed

section \<open>The claims\<close>

text \<open>
  Claim C1 fails, in the code, for a file named \<open>__proto__\<close>. No path is declared and
  the caller gives no file; the module leaves two bytes under the name \<open>__proto__\<close>, a
  path outside the known set. The result has no entry for it, neither in \<open>files\<close> nor
  in \<open>mediaFiles\<close>: the two assignments of the loop reach the setter of
  \<open>Object.prototype\<close> and add no property. For every other name the claim holds
  (lemma \<open>unknown_entry_harvested\<close>).
\<close>

theorem proto_named_file_not_harvested:
  "seeding ex_out_opts None [] = Inr ex_out_seeded
   \<and> ex_proto_run ex_out_opts (fileSystem ex_out_seeded) = Inr ex_proto_effect
   \<and> convert ex_proto_run parse_nothing ex_out_opts None [] = Inr ex_proto_result
   \<and> (js ''__proto__'', File [0x89, 0x50] False) \<in> set (entries ex_proto_effect)
   \<and> js ''__proto__'' \<notin> knownFiles ex_out_seeded
   \<and> js ''__proto__'' \<notin> KnownPathSet ex_out_opts []
   \<and> map_of (files ex_proto_result) (js ''__proto__'') = None
   \<and> map_of (mediaFiles ex_proto_result) (js ''__proto__'') = None"
  using ex_out_seeding ex_proto_module ex_proto_convert
  by (simp add: ex_proto_effect_def ex_out_seeded_def ex_proto_result_def ex_out_opts_def
      KnownPathSet_def system_paths_def js_def)




text \<open>
  Claim C3 fails, in the code, for the directory form: no file that the module writes
  underneath the extraction target reaches \<open>mediaFiles\<close>, nor \<open>files\<close>. The map
  that \<open>convert\<close> reads is the content of the root directory, and a name in a
  directory has no slash: let every name with a slash that the map holds after the run be
  one that seeding put there. Then a path underneath the extraction target, which is
  neither one of the caller's paths nor the declared output path, is no key of \<open>files\<close>
  and no key of \<open>mediaFiles\<close>, whatever the module wrote. What the module extracts into
  the directory, when the placeholder file under the target's name lets it make one, sits
  in a directory entry of the map, which has no \<open>data\<close> and is passed over by
  the loop.
\<close>

theorem directory_target_extracts_nothing:
  assumes "seeding opts stdin fls = Inr s"
    and "run opts (fileSystem s) = Inr eff"
    and "convert run JSON_parse opts stdin fls = Inr r"
    and "\<forall>name \<in> fst ` set (entries eff). 0x2F \<in> set name \<longrightarrow> name \<in> fst ` set (fileSystem s)"
    and "extract_media opts = Some x"
    and "underneath x p" and "p \<notin> fst ` set fls" and "Some p \<noteq> or_null (output_file opts)"
  shows "map_of (files r) p = None \<and> map_of (mediaFiles r) p = None"
proof -
  from assms(1-3) obtain f1 f2 f' m' where
    c1: "collect_output opts (entries eff) \<lparr>props = fls, blob_proto = False\<rparr> = Inr f1"
    and c2: "collect_media opts (entries eff) f1 = Inr f2"
    and c: "classify (knownFiles s) (or_null (output_file opts)) (or_null (extract_media opts))
           (entries eff) (f2, \<lparr>props = [], blob_proto = False\<rparr>) = Inr (f', m')"
    and fr: "files r = props f'" and mr: "mediaFiles r = props m'"
    by (rule convert_run)
  from assms(6) have sl: "0x2F \<in> set p" and ne: "p \<noteq> x" and ns: "p \<notin> system_paths"
    by (rule underneath_slash underneath_not_system)+
  from assms(5) ne have "Some p \<noteq> or_null (extract_media opts)"
    by (auto simp: or_null_def)
  with ns assms(7,8) have "p \<notin> fst ` set (fileSystem s)"
    unfolding seeding_names [OF assms(1)] by (auto split: option.splits)
  with assms(4) sl have nk: "p \<notin> fst ` set (entries eff)" by blast
  then have n1: "\<And>d ro. (p, File d ro) \<notin> set (entries eff)" by force
  from nk have n2: "map_of (entries eff) p = None" by (simp add: map_of_eq_None_iff)
  have "p \<notin> fst ` set (props m')"
    unfolding classify_keys_media [OF c] using n1 by simp
  moreover have "p \<notin> fst ` set (props f')"
    unfolding classify_keys_files [OF c] collect_media_keys [OF c2] collect_output_keys [OF c1]
    using n1 n2 assms(7) by simp
  ultimately show ?thesis by (simp add: fr mr map_of_eq_None_iff)
qed

theorem directory_target_extracts_nothing_witness:
  "seeding ex_dir_opts None ex_dir_files = Inr ex_dir_seeded
   \<and> ex_nested_run ex_dir_opts (fileSystem ex_dir_seeded) = Inr ex_nested_effect
   \<and> convert ex_nested_run parse_nothing ex_dir_opts None ex_dir_files = Inr ex_nested_result
   \<and> list_all (\<lambda>name. 0x2F \<notin> set name) (map fst (entries ex_nested_effect))
   \<and> extract_media ex_dir_opts = Some (js ''media'')
   \<and> \<not> endsWith (js ''media'') (js ''.zip'')
   \<and> map_of (entries ex_nested_effect) (js ''media'')
       = Some (Directory [(js ''image1.png'', File [0x89, 0x50] False)])
   \<and> underneath (js ''media'') (js ''media/image1.png'')
   \<and> js ''media/image1.png'' \<notin> KnownPathSet ex_dir_opts ex_dir_files
   \<and> map_of (files ex_nested_result) (js ''media/image1.png'') = None
   \<and> map_of (mediaFiles ex_nested_result) (js ''media/image1.png'') = None
   \<and> mediaFiles ex_nested_result = []"
proof -
  have l: "list_all (\<lambda>name. 0x2F \<notin> set name) (map fst (entries ex_nested_effect))"
    by (simp add: ex_nested_effect_def js_def)
  then have h: "\<forall>name \<in> fst ` set (entries ex_nested_effect).
         0x2F \<in> set name \<longrightarrow> name \<in> fst ` set (fileSystem ex_dir_seeded)"
    by (auto simp: list_all_iff)
  have x: "extract_media ex_dir_opts = Some (js ''media'')"
    by (simp add: ex_dir_opts_def)
  have g: "\<not> endsWith (js ''media'') (js ''.zip'')"
    "map_of (entries ex_nested_effect) (js ''media'')
       = Some (Directory [(js ''image1.png'', File [0x89, 0x50] False)])"
    "underneath (js ''media'') (js ''media/image1.png'')"
    "js ''media/image1.png'' \<notin> fst ` set ex_dir_files"
    "Some (js ''media/image1.png'') \<noteq> or_null (output_file ex_dir_opts)"
    "js ''media/image1.png'' \<notin> KnownPathSet ex_dir_opts ex_dir_files"
    "mediaFiles ex_nested_result = []"
    by (simp_all add: endsWith_def underneath_def ex_nested_effect_def ex_dir_files_def
        ex_dir_opts_def ex_nested_result_def or_null_def truthy_def KnownPathSet_def
        system_paths_def js_def)
  from directory_target_extracts_nothing
    [OF ex_dir_seeding ex_nested_module ex_nested_convert h x g(3,4,5)]
  have "map_of (files ex_nested_result) (js ''media/image1.png'') = None
    \<and> map_of (mediaFiles ex_nested_result) (js ''media/image1.png'') = None" .
  with ex_dir_seeding ex_nested_module ex_nested_convert l x g(1,2,3,6,7) show ?thesis
    by simp
qed

text \<open>
  Claim C4. The known set is the value that seeding returns: it is the set the
  specification describes, a function of the options and of the caller's files alone, and
  it is computed before the module runs (\<open>convert\<close> passes the module the seeded
  filesystem). The classifier receives this set and returns \<open>files\<close> and
  \<open>mediaFiles\<close> only, so nothing changes it afterwards. A path is a key of
  \<open>mediaFiles\<close> exactly when the module left a non-empty file under it, the path is not
  in that set, and it differs, as a string, from the output path and from the extraction
  target that the options name. A path is a key of \<open>files\<close> exactly when the caller
  gave it, or it is, as a string, one of the two named paths and holds a non-empty file,
  or the module left a non-empty file under it and it is not in that set. In both, the
  name \<open>__proto__\<close> stands apart: an assignment under it adds no key, so it is a key
  of \<open>files\<close> only when the caller gave it, and never one of \<open>mediaFiles\<close>.
\<close>

theorem classification_from_seeded_set:
  assumes "seeding opts stdin fls = Inr s"
    and "run opts (fileSystem s) = Inr eff"
    and "convert run JSON_parse opts stdin fls = Inr r"
  shows "knownFiles s = KnownPathSet opts fls
       \<and> (p \<in> fst ` set (mediaFiles r) \<longleftrightarrow>
            (\<exists>d ro. (p, File d ro) \<in> set (entries eff) \<and> d \<noteq> [])
            \<and> p \<notin> KnownPathSet opts fls
            \<and> Some p \<noteq> or_null (output_file opts)
            \<and> Some p \<noteq> or_null (extract_media opts)
            \<and> p \<noteq> js ''__proto__'')
       \<and> (p \<in> fst ` set (files r) \<longleftrightarrow>
            p \<in> fst ` set fls
            \<or> p \<noteq> js ''__proto__''
               \<and> ((Some p = or_null (output_file opts) \<or> Some p = or_null (extract_media opts))
                    \<and> (\<exists>d ro. map_of (entries eff) p = Some (File d ro) \<and> d \<noteq> [])
                  \<or> (\<exists>d ro. (p, File d ro) \<in> set (entries eff) \<and> d \<noteq> [])
                    \<and> p \<notin> KnownPathSet opts fls))"
proof -
  from assms obtain f1 f2 f' m' where
    c1: "collect_output opts (entries eff) \<lparr>props = fls, blob_proto = False\<rparr> = Inr f1"
    and c2: "collect_media opts (entries eff) f1 = Inr f2"
    and c: "classify (knownFiles s) (or_null (output_file opts)) (or_null (extract_media opts))
           (entries eff) (f2, \<lparr>props = [], blob_proto = False\<rparr>) = Inr (f', m')"
    and fr: "files r = props f'" and mr: "mediaFiles r = props m'"
    by (rule convert_run)
  have k: "knownFiles s = KnownPathSet opts fls" by (rule seeding_known [OF assms(1)])
  have m: "p \<in> fst ` set (mediaFiles r) \<longleftrightarrow>
            (\<exists>d ro. (p, File d ro) \<in> set (entries eff) \<and> d \<noteq> [])
            \<and> p \<notin> KnownPathSet opts fls
            \<and> Some p \<noteq> or_null (output_file opts)
            \<and> Some p \<noteq> or_null (extract_media opts)
            \<and> p \<noteq> js ''__proto__''"
    unfolding mr classify_keys_media [OF c] k by auto
  have k1: "p \<in> fst ` set (props f1) \<longleftrightarrow>
      p \<in> fst ` set fls
      \<or> p \<noteq> js ''__proto__'' \<and> Some p = or_null (output_file opts)
        \<and> (\<exists>d ro. map_of (entries eff) p = Some (File d ro) \<and> d \<noteq> [])"
    unfolding collect_output_keys [OF c1] by auto
  have k2: "p \<in> fst ` set (props f2) \<longleftrightarrow>
      p \<in> fst ` set (props f1)
      \<or> p \<noteq> js ''__proto__'' \<and> Some p = or_null (extract_media opts)
        \<and> (\<exists>d ro. map_of (entries eff) p = Some (File d ro) \<and> d \<noteq> [])"
    unfolding collect_media_keys [OF c2] by auto
  have k3: "p \<in> fst ` set (props f') \<longleftrightarrow>
      p \<in> fst ` set (props f2)
      \<or> p \<noteq> js ''__proto__'' \<and> (\<exists>d ro. (p, File d ro) \<in> set (entries eff) \<and> d \<noteq> [])
        \<and> p \<notin> KnownPathSet opts fls"
    unfolding classify_keys_files [OF c] k by auto
  have f: "p \<in> fst ` set (files r) \<longleftrightarrow>
            p \<in> fst ` set fls
            \<or> p \<noteq> js ''__proto__''
               \<and> ((Some p = or_null (output_file opts) \<or> Some p = or_null (extract_media opts))
                    \<and> (\<exists>d ro. map_of (entries eff) p = Some (File d ro) \<and> d \<noteq> [])
                  \<or> (\<exists>d ro. (p, File d ro) \<in> set (entries eff) \<and> d \<noteq> [])
                    \<and> p \<notin> KnownPathSet opts fls)"
    unfolding fr k3 k2 k1 by blast
  from k m f show ?thesis by blast
qed

theorem classification_from_seeded_set_witness:
  "seeding ex_out_opts None ex_dir_files = Inr ex_img_seeded
   \<and> ex_img_run ex_out_opts (fileSystem ex_img_seeded) = Inr ex_img_effect
   \<and> convert ex_img_run parse_nothing ex_out_opts None ex_dir_files = Inr ex_img_result
   \<and> knownFiles ex_img_seeded = KnownPathSet ex_out_opts ex_dir_files
   \<and> js ''image1.png'' \<in> fst ` set (mediaFiles ex_img_result)
   \<and> js ''image1.png'' \<notin> KnownPathSet ex_out_opts ex_dir_files
   \<and> js ''doc.docx'' \<in> KnownPathSet ex_out_opts ex_dir_files
   \<and> js ''doc.docx'' \<notin> fst ` set (mediaFiles ex_img_result)
   \<and> js ''doc.docx'' \<in> fst ` set (files ex_img_result)"
proof -
  note t = classification_from_seeded_set [OF ex_img_seeding ex_img_module ex_img_convert]
  have a: "js ''image1.png'' \<in> fst ` set (mediaFiles ex_img_result)"
    by (simp add: ex_img_result_def js_def)
  have b: "js ''doc.docx'' \<in> KnownPathSet ex_out_opts ex_dir_files"
    "js ''doc.docx'' \<in> fst ` set ex_dir_files"
    by (simp_all add: KnownPathSet_def ex_dir_files_def)
  from t [of "js ''image1.png''"] a
  have 1: "knownFiles ex_img_seeded = KnownPathSet ex_out_opts ex_dir_files"
    "js ''image1.png'' \<notin> KnownPathSet ex_out_opts ex_dir_files"
    by simp_all
  from t [of "js ''doc.docx''"] b
  have 2: "js ''doc.docx'' \<notin> fst ` set (mediaFiles ex_img_result)"
    "js ''doc.docx'' \<in> fst ` set (files ex_img_result)"
    by simp_all
  from ex_img_seeding ex_img_module ex_img_convert a b(1) 1 2 show ?thesis by simp
qed

text \<open>
  Claim C5, as stated, fails for the file collection that \<open>convert\<close> returns: it
  holds every harvested entry as a blob and decodes none. The module writes the three
  bytes of \<open><p>\<close> to the declared output file; they are valid UTF-8, which
  \<open>convertData\<close> returns as text, and \<open>files\<close> has them as a blob.
\<close>

theorem valid_utf8_output_returned_as_blob:
  "convert ex_zip_run parse_nothing ex_zip_opts None [] = Inr ex_zip_result
   \<and> valid_utf8 [0x3C, 0x70, 0x3E]
   \<and> convertData [0x3C, 0x70, 0x3E] = JString (js ''<p>'')
   \<and> map_of (files ex_zip_result) (js ''out.html'') = Some (JBlob [0x3C, 0x70, 0x3E] [])"
proof -
  have "valid_utf8 [0x3C, 0x70, 0x3E]" by (simp add: valid_utf8_iff utf8_decode_def)
  moreover have "convertData [0x3C, 0x70, 0x3E] = JString (js ''<p>'')"
    by (simp add: convertData_def TextDecoder_decode_def utf8_decode_def js_def)
  moreover have "map_of (files ex_zip_result) (js ''out.html'') = Some (JBlob [0x3C, 0x70, 0x3E] [])"
    by (simp add: ex_zip_result_def js_def)
  ultimately show ?thesis using ex_zip_convert by simp
qed

text \<open>
  Claim C5, amended. Every value of the file collection that \<open>convert\<close> returns is
  either the value the caller gave under that path or a blob of the non-empty bytes that
  the module left under it, whatever they decode to. The function \<open>convertData\<close>
  takes bytes to the caller's representation: bytes that are the UTF-8 encoding of a
  sequence of scalar values come back as that text (without a leading U+FEFF), and bytes
  that are no such encoding come back as a blob of the same bytes; an encoding cut inside
  a multi-byte sequence is no such encoding.
\<close>

theorem harvested_blobs_and_convertData:
  "(seeding opts stdin fls = Inr s \<and> run opts (fileSystem s) = Inr eff
      \<and> convert run JSON_parse opts stdin fls = Inr r \<and> map_of (files r) p = Some v
    \<longrightarrow> map_of fls p = Some v
        \<or> (\<exists>d ro ty. (p, File d ro) \<in> set (entries eff) \<and> d \<noteq> [] \<and> v = JBlob d ty))
   \<and> (list_all is_scalar cs \<and> utf8_encode cs = map unat d
        \<longrightarrow> convertData d = JString (map of_nat (units_of (strip_bom cs))))
   \<and> (\<not> valid_utf8 d \<longrightarrow> convertData d = JBlob d [])
   \<and> (list_all is_scalar cs \<and> is_scalar c \<and> 0 < n \<and> n < length (utf8_bytes c)
        \<longrightarrow> \<not> valid_utf8 (map of_nat (utf8_encode cs @ take n (utf8_bytes c))))"
proof -
  have a: "seeding opts stdin fls = Inr s \<and> run opts (fileSystem s) = Inr eff
      \<and> convert run JSON_parse opts stdin fls = Inr r \<and> map_of (files r) p = Some v
    \<longrightarrow> map_of fls p = Some v
        \<or> (\<exists>d ro ty. (p, File d ro) \<in> set (entries eff) \<and> d \<noteq> [] \<and> v = JBlob d ty)"
  proof
    assume x: "seeding opts stdin fls = Inr s \<and> run opts (fileSystem s) = Inr eff
      \<and> convert run JSON_parse opts stdin fls = Inr r \<and> map_of (files r) p = Some v"
    then have x1: "seeding opts stdin fls = Inr s" and x2: "run opts (fileSystem s) = Inr eff"
      and x3: "convert run JSON_parse opts stdin fls = Inr r" and x4: "map_of (files r) p = Some v"
      by blast+
    from x1 x2 x3 obtain f1 f2 f' m' where
      c1: "collect_output opts (entries eff) \<lparr>props = fls, blob_proto = False\<rparr> = Inr f1"
      and c2: "collect_media opts (entries eff) f1 = Inr f2"
      and c: "classify (knownFiles s) (or_null (output_file opts)) (or_null (extract_media opts))
           (entries eff) (f2, \<lparr>props = [], blob_proto = False\<rparr>) = Inr (f', m')"
      and fr: "files r = props f'"
      by (rule convert_run)
    from x4 have "map_of (props f') p = Some v" by (simp add: fr)
    from classify_origin [OF c this]
    consider "map_of (props f2) p = Some v"
      | d ro where "(p, File d ro) \<in> set (entries eff)" "d \<noteq> []" "v = JBlob d []"
      by blast
    then show "map_of fls p = Some v
        \<or> (\<exists>d ro ty. (p, File d ro) \<in> set (entries eff) \<and> d \<noteq> [] \<and> v = JBlob d ty)"
    proof cases
      case 1
      from collect_media_origin [OF c2 1] consider "map_of (props f1) p = Some v"
        | d ro where "(p, File d ro) \<in> set (entries eff)" "d \<noteq> []" "v = JBlob d ''application/zip''"
        by blast
      then show ?thesis
      proof cases
        case 1
        from collect_output_origin [OF c1 1] show ?thesis by auto
      next
        case 2
        then show ?thesis by blast
      qed
    next
      case 2
      then show ?thesis by blast
    qed
  qed
  show ?thesis
    by (intro conjI impI a [rule_format] convertData_valid convertData_invalid truncated_invalid)
       simp_all
qed

theorem harvested_blobs_and_convertData_witness:
  "seeding ex_zip_opts None [] = Inr ex_zip_seeded
   \<and> ex_zip_run ex_zip_opts (fileSystem ex_zip_seeded) = Inr ex_zip_effect
   \<and> convert ex_zip_run parse_nothing ex_zip_opts None [] = Inr ex_zip_result
   \<and> map_of (files ex_zip_result) (js ''out.html'') = Some (JBlob [0x3C, 0x70, 0x3E] [])
   \<and> (js ''out.html'', File [0x3C, 0x70, 0x3E] False) \<in> set (entries ex_zip_effect)
   \<and> list_all is_scalar [0x20AC]
   \<and> utf8_encode [0x20AC] = map unat [0xE2, 0x82, 0xAC :: byte]
   \<and> convertData [0xE2, 0x82, 0xAC] = JString [0x20AC]
   \<and> \<not> valid_utf8 [0xE2, 0x82]
   \<and> convertData [0xE2, 0x82] = JBlob [0xE2, 0x82] []
   \<and> is_scalar 0x20AC \<and> (2::nat) < length (utf8_bytes 0x20AC)
   \<and> \<not> valid_utf8 [0x61, 0xE2, 0x82]"
proof -
  note t = harvested_blobs_and_convertData
  have f: "map_of (files ex_zip_result) (js ''out.html'') = Some (JBlob [0x3C, 0x70, 0x3E] [])"
    by (simp add: ex_zip_result_def js_def)
  have nf: "map_of [] (js ''out.html'') \<noteq> Some (JBlob [0x3C, 0x70, 0x3E] [])" by simp
  from t [of ex_zip_opts None "[]" ex_zip_seeded ex_zip_run ex_zip_effect parse_nothing
      ex_zip_result "js ''out.html''" "JBlob [0x3C, 0x70, 0x3E] []"]
    ex_zip_seeding ex_zip_module ex_zip_convert f
  have e: "(js ''out.html'', File [0x3C, 0x70, 0x3E] False) \<in> set (entries ex_zip_effect)"
    by (auto simp: ex_zip_effect_def js_def)
  have s: "list_all is_scalar [0x20AC]" "is_scalar 0x20AC" "list_all is_scalar [0x61]"
    by (simp_all add: is_scalar_def is_surrogate_def)
  have u: "utf8_encode [0x20AC] = map unat [0xE2, 0x82, 0xAC :: byte]"
    "utf8_bytes 0x20AC = [0xE2, 0x82, 0xAC]" "utf8_encode [0x61] = [0x61]"
    by (simp_all add: utf8_encode_def utf8_bytes_def)
  have l: "(2::nat) < length (utf8_bytes 0x20AC)" by (simp add: u(2))
  from t [of _ _ _ _ _ _ _ _ _ _ "[0x20AC]" "[0xE2, 0x82, 0xAC]"] s(1) u(1)
  have c1: "convertData [0xE2, 0x82, 0xAC] = JString [0x20AC]" by simp
  from t [of _ _ _ _ _ _ _ _ _ _ "[0x61]" _ "0x20AC" 2] s(2,3) l
  have "\<not> valid_utf8 (map of_nat (utf8_encode [0x61] @ take 2 (utf8_bytes 0x20AC)))"
    by simp
  then have v2: "\<not> valid_utf8 [0x61, 0xE2, 0x82]" by (simp add: u(2,3))
  have v1: "\<not> valid_utf8 [0xE2, 0x82]" by (simp add: valid_utf8_iff utf8_decode_def)
  from t [of _ _ _ _ _ _ _ _ _ _ _ "[0xE2, 0x82]"] v1
  have c2: "convertData [0xE2, 0x82] = JBlob [0xE2, 0x82] []" by simp
  from ex_zip_seeding ex_zip_module ex_zip_convert f e s(1,2) u(1) c1 v1 c2 l v2
  show ?thesis by simp
qed

text \<open>
  Claim C6, as stated, fails for \<open>addFile\<close>, which \<open>convert\<close> reads the caller's
  files with: it tests for a string and calls \<open>arrayBuffer\<close> on every other value, so
  a value that is neither text nor a \<open>Blob\<close> but has that method is read like a
  \<open>Blob\<close>. With such a value under \<open>a.bin\<close> seeding succeeds and \<open>convert\<close>
  returns; \<open>toUint8Array\<close> rejects the same value.
\<close>

theorem non_blob_value_accepted:
  "toUint8Array (JBody (Inr [0x01, 0x02]))
     = Inl (Error ''Unsupported type: inData must be a string or a Blob'')
   \<and> addFile (js ''a.bin'') (JBody (Inr [0x01, 0x02])) True []
     = Inr [(js ''a.bin'', File [0x01, 0x02] True)]
   \<and> seeding ex_out_opts None ex_body_files = Inr ex_body_seeded
   \<and> map_of (fileSystem ex_body_seeded) (js ''a.bin'') = Some (File [0x01, 0x02] True)
   \<and> convert ex_out_run parse_nothing ex_out_opts None ex_body_files = Inr ex_body_result"
  using ex_body_seeding ex_body_convert
  by (simp add: toUint8Array_def addFile_def ex_body_seeded_def js_def)

text \<open>
  Claim C6, amended. \<open>toUint8Array\<close> and \<open>addFile\<close> encode a string as UTF-8: the
  bytes decode, by the decoder of the Encoding Standard, to the scalar values of the
  string, which for a string without unpaired surrogate give back its code units; an
  unpaired surrogate is encoded as U+FFFD. Both take the bytes of a \<open>Blob\<close> as they
  are. On every other value \<open>toUint8Array\<close> fails with its \<open>Error\<close>;
  \<open>addFile\<close> takes the bytes that the \<open>arrayBuffer\<close> method of the value gives,
  fails with what that method throws, and fails with a \<open>TypeError\<close> when the value has
  no such method. In \<open>convert\<close> the failure comes from seeding, before the module is
  called: with a value among the caller's files that \<open>addFile\<close> cannot read, the
  result is the error of seeding for every module, also for one that would trap; without
  one, seeding succeeds.
\<close>

theorem file_value_to_bytes:
  "(\<exists>d. toUint8Array (JString t) = Inr d
        \<and> addFile name (JString t) ro fileSys = Inr (AList.update name (File d ro) fileSys)
        \<and> utf8_decode (map unat d) = Some (scalars_of (map unat t))
        \<and> list_all is_scalar (scalars_of (map unat t))
        \<and> (well_formed (map unat t) \<longrightarrow> map of_nat (units_of (scalars_of (map unat t))) = t))
   \<and> (is_surrogate (unat u) \<longrightarrow> toUint8Array (JString [u]) = Inr [0xEF, 0xBF, 0xBD])
   \<and> toUint8Array (JBlob b ty) = Inr b
   \<and> addFile name (JBlob b ty) ro fileSys = Inr (AList.update name (File b ro) fileSys)
   \<and> toUint8Array (JBody res) = Inl (Error ''Unsupported type: inData must be a string or a Blob'')
   \<and> toUint8Array JOther = Inl (Error ''Unsupported type: inData must be a string or a Blob'')
   \<and> addFile name (JBody (Inr b)) ro fileSys = Inr (AList.update name (File b ro) fileSys)
   \<and> addFile name (JBody (Inl e)) ro fileSys = Inl e
   \<and> addFile name JOther ro fileSys = Inl TypeError
   \<and> ((\<exists>v \<in> snd ` set fls. \<not> readable v) \<longrightarrow>
        (\<exists>e'. seeding opts stdin fls = Inl e'
             \<and> convert run JSON_parse opts stdin fls = Inl e'
             \<and> (\<exists>v \<in> snd ` set fls. v = JOther \<and> e' = TypeError \<or> v = JBody (Inl e'))))
   \<and> ((\<forall>v \<in> snd ` set fls. readable v) \<longrightarrow> (\<exists>s. seeding opts stdin fls = Inr s))"
proof -
  let ?cs = "scalars_of (map unat t)"
  have wf: "well_formed (map unat t) \<longrightarrow> map of_nat (units_of ?cs) = t"
    using units_of_scalars_of_string by blast
  have s: "\<exists>d. toUint8Array (JString t) = Inr d
        \<and> addFile name (JString t) ro fileSys = Inr (AList.update name (File d ro) fileSys)
        \<and> utf8_decode (map unat d) = Some ?cs
        \<and> list_all is_scalar ?cs
        \<and> (well_formed (map unat t) \<longrightarrow> map of_nat (units_of ?cs) = t)"
  proof (intro exI conjI)
    show "toUint8Array (JString t) = Inr (TextEncoder_encode t)"
      by (simp add: toUint8Array_def)
    show "addFile name (JString t) ro fileSys
        = Inr (AList.update name (File (TextEncoder_encode t) ro) fileSys)"
      by (simp add: addFile_def)
    show "utf8_decode (map unat (TextEncoder_encode t)) = Some ?cs"
      by (rule TextEncoder_encode_decodes)
    show "list_all is_scalar ?cs" by (rule TextEncoder_encode_scalars)
    show "well_formed (map unat t) \<longrightarrow> map of_nat (units_of ?cs) = t" by (rule wf)
  qed
  have r: "is_surrogate (unat u) \<longrightarrow> toUint8Array (JString [u]) = Inr [0xEF, 0xBF, 0xBD]"
    by (simp add: toUint8Array_def lone_surrogate)
  have a: "(\<exists>v \<in> snd ` set fls. \<not> readable v) \<longrightarrow>
        (\<exists>e'. seeding opts stdin fls = Inl e'
             \<and> convert run JSON_parse opts stdin fls = Inl e'
             \<and> (\<exists>v \<in> snd ` set fls. v = JOther \<and> e' = TypeError \<or> v = JBody (Inl e')))"
  proof
    assume "\<exists>v \<in> snd ` set fls. \<not> readable v"
    from seeding_unreadable [OF this] obtain e' where e': "seeding opts stdin fls = Inl e'"
      by blast
    then have "convert run JSON_parse opts stdin fls = Inl e'" by (simp add: convert_def)
    moreover from seeding_Inl [OF e']
    have "\<exists>v \<in> snd ` set fls. v = JOther \<and> e' = TypeError \<or> v = JBody (Inl e')" by blast
    ultimately show "\<exists>e'. seeding opts stdin fls = Inl e'
             \<and> convert run JSON_parse opts stdin fls = Inl e'
             \<and> (\<exists>v \<in> snd ` set fls. v = JOther \<and> e' = TypeError \<or> v = JBody (Inl e'))"
      using e' by blast
  qed
  have b: "(\<forall>v \<in> snd ` set fls. readable v) \<longrightarrow> (\<exists>s. seeding opts stdin fls = Inr s)"
    using seeding_Inl [of opts stdin fls] by (cases "seeding opts stdin fls") auto
  have o: "toUint8Array (JBlob b ty) = Inr b"
    "addFile name (JBlob b ty) ro fileSys = Inr (AList.update name (File b ro) fileSys)"
    "toUint8Array (JBody res) = Inl (Error ''Unsupported type: inData must be a string or a Blob'')"
    "toUint8Array JOther = Inl (Error ''Unsupported type: inData must be a string or a Blob'')"
    "addFile name (JBody (Inr b)) ro fileSys = Inr (AList.update name (File b ro) fileSys)"
    "addFile name (JBody (Inl e)) ro fileSys = Inl e"
    "addFile name JOther ro fileSys = Inl TypeError"
    by (simp_all add: toUint8Array_def addFile_def)
  show ?thesis
    by (intro conjI) (rule s r o a b)+
qed

theorem file_value_to_bytes_witness:
  "toUint8Array (JString [0x20AC, 0xD83D, 0xDE00, 0xE9])
     = Inr [0xE2, 0x82, 0xAC, 0xF0, 0x9F, 0x98, 0x80, 0xC3, 0xA9]
   \<and> utf8_decode (map unat [0xE2, 0x82, 0xAC, 0xF0, 0x9F, 0x98, 0x80, 0xC3, 0xA9 :: byte])
       = Some [0x20AC, 0x1F600, 0xE9]
   \<and> well_formed (map unat [0x20AC, 0xD83D, 0xDE00, 0xE9 :: codeunit])
   \<and> map of_nat (units_of [0x20AC, 0x1F600, 0xE9]) = [0x20AC, 0xD83D, 0xDE00, 0xE9 :: codeunit]
   \<and> is_surrogate (unat (0xD800 :: codeunit))
   \<and> toUint8Array (JString [0xD800]) = Inr [0xEF, 0xBF, 0xBD]
   \<and> \<not> readable JOther
   \<and> seeding ex_out_opts None [(js ''a.md'', JString (js ''x'')), (js ''n'', JOther)] = Inl TypeError
   \<and> convert faulting parse_nothing ex_out_opts None
        [(js ''a.md'', JString (js ''x'')), (js ''n'', JOther)] = Inl TypeError
   \<and> \<not> readable (JBody (Inl (Error ''gone'')))
   \<and> convert faulting parse_nothing ex_out_opts None
        [(js ''r'', JBody (Inl (Error ''gone'')))] = Inl (Error ''gone'')
   \<and> readable (JString (js ''x''))
   \<and> convert faulting parse_nothing ex_out_opts None [(js ''a.md'', JString (js ''x''))]
       = Inl RuntimeError
   \<and> readable (JBody (Inr [0x01, 0x02]))
   \<and> seeding ex_out_opts None ex_body_files = Inr ex_body_seeded"
proof -
  let ?t = "[0x20AC, 0xD83D, 0xDE00, 0xE9 :: codeunit]"
  let ?bad = "[(js ''a.md'', JString (js ''x'')), (js ''n'', JOther)]"
  let ?gone = "[(js ''r'', JBody (Inl (Error ''gone'')))]"
  have sc: "scalars_of (map unat ?t) = [0x20AC, 0x1F600, 0xE9]"
    by (simp add: is_surrogate_def is_lead_def is_trail_def)
  have w: "well_formed (map unat ?t)"
    by (simp add: is_surrogate_def is_lead_def is_trail_def)
  have e: "toUint8Array (JString ?t) = Inr [0xE2, 0x82, 0xAC, 0xF0, 0x9F, 0x98, 0x80, 0xC3, 0xA9]"
    by (simp add: toUint8Array_def TextEncoder_encode_def utf8_encode_def utf8_bytes_def
        is_surrogate_def is_lead_def is_trail_def)
  note t1 = file_value_to_bytes [of ?t "js ''a.md''" True "[]" "0xD800" "[]" "[]" "Inr []"
      TypeError ?bad ex_out_opts None faulting parse_nothing]
  note t2 = file_value_to_bytes [of ?t "js ''a.md''" True "[]" "0xD800" "[]" "[]" "Inr []"
      TypeError ?gone ex_out_opts None faulting parse_nothing]
  from t1 have "\<exists>d. toUint8Array (JString ?t) = Inr d
      \<and> utf8_decode (map unat d) = Some (scalars_of (map unat ?t))
      \<and> (well_formed (map unat ?t) \<longrightarrow> map of_nat (units_of (scalars_of (map unat ?t))) = ?t)"
    by - (elim conjE exE, intro exI conjI, assumption+)
  then obtain d where dd: "toUint8Array (JString ?t) = Inr d
      \<and> utf8_decode (map unat d) = Some (scalars_of (map unat ?t))
      \<and> (well_formed (map unat ?t) \<longrightarrow> map of_nat (units_of (scalars_of (map unat ?t))) = ?t)" ..
  note d = dd [THEN conjunct1] dd [THEN conjunct2, THEN conjunct1]
    dd [THEN conjunct2, THEN conjunct2]
  from d(1) e have "d = [0xE2, 0x82, 0xAC, 0xF0, 0x9F, 0x98, 0x80, 0xC3, 0xA9]" by simp
  with d(2) have 1: "utf8_decode (map unat [0xE2, 0x82, 0xAC, 0xF0, 0x9F, 0x98, 0x80, 0xC3, 0xA9 :: byte])
       = Some [0x20AC, 0x1F600, 0xE9]"
    unfolding sc by simp
  from d(3) w have 2: "map of_nat (units_of [0x20AC, 0x1F600, 0xE9]) = ?t"
    unfolding sc by (rule mp)
  have su: "is_surrogate (unat (0xD800 :: codeunit))" by (simp add: is_surrogate_def)
  from t1
  have "is_surrogate (unat (0xD800 :: codeunit)) \<longrightarrow> toUint8Array (JString [0xD800]) = Inr [0xEF, 0xBF, 0xBD]"
    by - (elim conjE, assumption)
  from this su have 3: "toUint8Array (JString [0xD800]) = Inr [0xEF, 0xBF, 0xBD]" by (rule mp)
  have rd: "\<not> readable JOther" "\<not> readable (JBody (Inl (Error ''gone'')))"
    "readable (JString (js ''x''))" "readable (JBody (Inr [0x01, 0x02]))"
    by (simp_all add: readable_def)
  have m1: "\<exists>v \<in> snd ` set ?bad. \<not> readable v" using rd(1) by simp
  from t1
  have "(\<exists>v \<in> snd ` set ?bad. \<not> readable v) \<longrightarrow>
        (\<exists>e'. seeding ex_out_opts None ?bad = Inl e'
             \<and> convert faulting parse_nothing ex_out_opts None ?bad = Inl e'
             \<and> (\<exists>v \<in> snd ` set ?bad. v = JOther \<and> e' = TypeError \<or> v = JBody (Inl e')))"
    by - (elim conjE, assumption)
  from this m1 have "\<exists>e'. seeding ex_out_opts None ?bad = Inl e'
             \<and> convert faulting parse_nothing ex_out_opts None ?bad = Inl e'
             \<and> (\<exists>v \<in> snd ` set ?bad. v = JOther \<and> e' = TypeError \<or> v = JBody (Inl e'))"
    by (rule mp)
  then obtain e1 where ee1: "seeding ex_out_opts None ?bad = Inl e1
             \<and> convert faulting parse_nothing ex_out_opts None ?bad = Inl e1
             \<and> (\<exists>v \<in> snd ` set ?bad. v = JOther \<and> e1 = TypeError \<or> v = JBody (Inl e1))" ..
  note e1 = ee1 [THEN conjunct1] ee1 [THEN conjunct2, THEN conjunct1]
    ee1 [THEN conjunct2, THEN conjunct2]
  from e1(3) have "e1 = TypeError" by auto
  with e1 have 4: "seeding ex_out_opts None ?bad = Inl TypeError"
    "convert faulting parse_nothing ex_out_opts None ?bad = Inl TypeError" by simp_all
  have m2: "\<exists>v \<in> snd ` set ?gone. \<not> readable v" using rd(2) by simp
  from t2
  have "(\<exists>v \<in> snd ` set ?gone. \<not> readable v) \<longrightarrow>
        (\<exists>e'. seeding ex_out_opts None ?gone = Inl e'
             \<and> convert faulting parse_nothing ex_out_opts None ?gone = Inl e'
             \<and> (\<exists>v \<in> snd ` set ?gone. v = JOther \<and> e' = TypeError \<or> v = JBody (Inl e')))"
    by - (elim conjE, assumption)
  from this m2 have "\<exists>e'. seeding ex_out_opts None ?gone = Inl e'
             \<and> convert faulting parse_nothing ex_out_opts None ?gone = Inl e'
             \<and> (\<exists>v \<in> snd ` set ?gone. v = JOther \<and> e' = TypeError \<or> v = JBody (Inl e'))"
    by (rule mp)
  then obtain e2 where ee2: "seeding ex_out_opts None ?gone = Inl e2
             \<and> convert faulting parse_nothing ex_out_opts None ?gone = Inl e2
             \<and> (\<exists>v \<in> snd ` set ?gone. v = JOther \<and> e2 = TypeError \<or> v = JBody (Inl e2))" ..
  note e2 = ee2 [THEN conjunct2, THEN conjunct1] ee2 [THEN conjunct2, THEN conjunct2]
  from e2(2) have "e2 = Error ''gone''" by auto
  with e2 have 5: "convert faulting parse_nothing ex_out_opts None ?gone = Inl (Error ''gone'')"
    by simp
  have 6: "convert faulting parse_nothing ex_out_opts None [(js ''a.md'', JString (js ''x''))]
       = Inl RuntimeError"
    by (simp add: run_defs ex_defs faulting_def)
  from e 1 w 2 su 3 rd 4 5 6 ex_body_seeding show ?thesis by simp
qed

text \<open>
  Claim C7, as stated, fails for a text that begins with U+FEFF. The string of the two
  code units U+FEFF and \<open>a\<close> has no unpaired surrogate; its encoding begins with the
  bytes EF BB BF, which the decoder, built without \<open>ignoreBOM\<close>, takes for a byte
  order mark and drops: the text that comes back is \<open>a\<close>.
\<close>

theorem leading_bom_lost_in_round_trip:
  "well_formed (map unat [0xFEFF, 0x61 :: codeunit])
   \<and> toUint8Array (JString [0xFEFF, 0x61]) = Inr [0xEF, 0xBB, 0xBF, 0x61]
   \<and> convertData [0xEF, 0xBB, 0xBF, 0x61] = JString [0x61]
   \<and> convertData [0xEF, 0xBB, 0xBF, 0x61] \<noteq> JString [0xFEFF, 0x61]"
  by (simp add: toUint8Array_def convertData_def TextEncoder_encode_def TextDecoder_decode_def
      utf8_encode_def utf8_bytes_def utf8_decode_def is_surrogate_def is_lead_def is_trail_def)

text \<open>
  Claim C7, amended. For every text without an unpaired surrogate that does not begin
  with U+FEFF, \<open>toUint8Array\<close> returns bytes that \<open>convertData\<close> turns back into the
  same text.
\<close>

theorem text_round_trip:
  assumes "well_formed (map unat t)" and "t = [] \<or> hd t \<noteq> 0xFEFF"
  shows "\<exists>d. toUint8Array (JString t) = Inr d \<and> convertData d = JString t"
  using TextDecoder_TextEncoder [OF assms] by (simp add: toUint8Array_def convertData_def)

theorem text_round_trip_witness:
  "well_formed (map unat [0x20AC, 0xD83D, 0xDE00, 0xE9 :: codeunit])
   \<and> hd [0x20AC, 0xD83D, 0xDE00, 0xE9 :: codeunit] \<noteq> 0xFEFF
   \<and> toUint8Array (JString [0x20AC, 0xD83D, 0xDE00, 0xE9])
       = Inr [0xE2, 0x82, 0xAC, 0xF0, 0x9F, 0x98, 0x80, 0xC3, 0xA9]
   \<and> convertData [0xE2, 0x82, 0xAC, 0xF0, 0x9F, 0x98, 0x80, 0xC3, 0xA9]
       = JString [0x20AC, 0xD83D, 0xDE00, 0xE9]"
proof -
  have w: "well_formed (map unat [0x20AC, 0xD83D, 0xDE00, 0xE9 :: codeunit])"
    by (simp add: is_surrogate_def is_lead_def is_trail_def)
  have h: "[0x20AC, 0xD83D, 0xDE00, 0xE9 :: codeunit] = [] \<or> hd [0x20AC, 0xD83D, 0xDE00, 0xE9 :: codeunit] \<noteq> 0xFEFF"
    by simp
  have e: "toUint8Array (JString [0x20AC, 0xD83D, 0xDE00, 0xE9])
       = Inr [0xE2, 0x82, 0xAC, 0xF0, 0x9F, 0x98, 0x80, 0xC3, 0xA9]"
    by (simp add: toUint8Array_def TextEncoder_encode_def utf8_encode_def utf8_bytes_def
        is_surrogate_def is_lead_def is_trail_def)
  from text_round_trip [OF w h] e
  have "convertData [0xE2, 0x82, 0xAC, 0xF0, 0x9F, 0x98, 0x80, 0xC3, 0xA9]
       = JString [0x20AC, 0xD83D, 0xDE00, 0xE9]"
    by simp
  with w e show ?thesis by simp
qed




text \<open>
  Claim C9. An empty string as the value of \<open>"output-file"\<close> or of
  \<open>"extract-media"\<close> is treated as a missing key. Seeding and harvesting give the same
  result with the empty string as without the key, and so does \<open>convert\<close> for a module
  that makes no difference between the two; with both options empty, seeding leaves the
  system files and the caller's files in the map and nothing else, and the known set is
  the system paths and the caller's paths; the two reads by name return the file
  collection unchanged and do not throw.
\<close>

theorem empty_string_option_is_absent:
  "seeding (opts\<lparr>output_file := Some []\<rparr>) stdin fls = seeding (opts\<lparr>output_file := None\<rparr>) stdin fls
   \<and> seeding (opts\<lparr>extract_media := Some []\<rparr>) stdin fls
       = seeding (opts\<lparr>extract_media := None\<rparr>) stdin fls
   \<and> harvesting JSON_parse (opts\<lparr>output_file := Some []\<rparr>) K fls eff
       = harvesting JSON_parse (opts\<lparr>output_file := None\<rparr>) K fls eff
   \<and> harvesting JSON_parse (opts\<lparr>extract_media := Some []\<rparr>) K fls eff
       = harvesting JSON_parse (opts\<lparr>extract_media := None\<rparr>) K fls eff
   \<and> (run (opts\<lparr>output_file := Some []\<rparr>) = run (opts\<lparr>output_file := None\<rparr>) \<longrightarrow>
        convert run JSON_parse (opts\<lparr>output_file := Some []\<rparr>) stdin fls
        = convert run JSON_parse (opts\<lparr>output_file := None\<rparr>) stdin fls)
   \<and> (run (opts\<lparr>extract_media := Some []\<rparr>) = run (opts\<lparr>extract_media := None\<rparr>) \<longrightarrow>
        convert run JSON_parse (opts\<lparr>extract_media := Some []\<rparr>) stdin fls
        = convert run JSON_parse (opts\<lparr>extract_media := None\<rparr>) stdin fls)
   \<and> (seeding (opts\<lparr>output_file := Some [], extract_media := Some []\<rparr>) stdin fls = Inr s \<longrightarrow>
        fst ` set (fileSystem s) = system_paths \<union> fst ` set fls
        \<and> knownFiles s = system_paths \<union> fst ` set fls)
   \<and> collect_output (opts\<lparr>output_file := Some []\<rparr>) es f = Inr f
   \<and> collect_media (opts\<lparr>extract_media := Some []\<rparr>) es f = Inr f"
proof -
  have s1: "seeding (opts\<lparr>output_file := Some []\<rparr>) stdin fls
      = seeding (opts\<lparr>output_file := None\<rparr>) stdin fls"
    and s2: "seeding (opts\<lparr>extract_media := Some []\<rparr>) stdin fls
      = seeding (opts\<lparr>extract_media := None\<rparr>) stdin fls"
    by (simp_all add: seeding_def or_null_def truthy_def split: sum.splits)
  have on: "or_null (Some []) = None" "or_null None = None"
    by (simp_all add: or_null_def truthy_def)
  have sel: "\<And>v. output_file (opts\<lparr>output_file := v\<rparr>) = v"
    "\<And>v. extract_media (opts\<lparr>extract_media := v\<rparr>) = v"
    "\<And>v. output_file (opts\<lparr>extract_media := v\<rparr>) = output_file opts"
    "\<And>v. extract_media (opts\<lparr>output_file := v\<rparr>) = extract_media opts"
    by simp_all
  have co: "\<And>es f. collect_output (opts\<lparr>output_file := Some []\<rparr>) es f = Inr f"
    "\<And>es f. collect_output (opts\<lparr>output_file := None\<rparr>) es f = Inr f"
    "\<And>v es f. collect_output (opts\<lparr>extract_media := v\<rparr>) es f = collect_output opts es f"
    by (simp_all add: collect_output_def)
  have cm: "\<And>es f. collect_media (opts\<lparr>extract_media := Some []\<rparr>) es f = Inr f"
    "\<And>es f. collect_media (opts\<lparr>extract_media := None\<rparr>) es f = Inr f"
    "\<And>v es f. collect_media (opts\<lparr>output_file := v\<rparr>) es f = collect_media opts es f"
    by (simp_all add: collect_media_def)
  have h1: "\<And>K eff. harvesting JSON_parse (opts\<lparr>output_file := Some []\<rparr>) K fls eff
       = harvesting JSON_parse (opts\<lparr>output_file := None\<rparr>) K fls eff"
    and h2: "\<And>K eff. harvesting JSON_parse (opts\<lparr>extract_media := Some []\<rparr>) K fls eff
       = harvesting JSON_parse (opts\<lparr>extract_media := None\<rparr>) K fls eff"
    unfolding harvesting_def harvest_files_def co cm sel on by (rule refl)+
  have c1: "run (opts\<lparr>output_file := Some []\<rparr>) = run (opts\<lparr>output_file := None\<rparr>) \<longrightarrow>
        convert run JSON_parse (opts\<lparr>output_file := Some []\<rparr>) stdin fls
        = convert run JSON_parse (opts\<lparr>output_file := None\<rparr>) stdin fls"
    by (simp add: convert_def s1 h1 split: sum.splits)
  have c2: "run (opts\<lparr>extract_media := Some []\<rparr>) = run (opts\<lparr>extract_media := None\<rparr>) \<longrightarrow>
        convert run JSON_parse (opts\<lparr>extract_media := Some []\<rparr>) stdin fls
        = convert run JSON_parse (opts\<lparr>extract_media := None\<rparr>) stdin fls"
    by (simp add: convert_def s2 h2 split: sum.splits)
  have e: "seeding (opts\<lparr>output_file := Some [], extract_media := Some []\<rparr>) stdin fls = Inr s \<longrightarrow>
        fst ` set (fileSystem s) = system_paths \<union> fst ` set fls
        \<and> knownFiles s = system_paths \<union> fst ` set fls"
  proof
    assume a: "seeding (opts\<lparr>output_file := Some [], extract_media := Some []\<rparr>) stdin fls = Inr s"
    then have "add_input_files fls \<lparr>fileSystem = system_files stdin, knownFiles = system_paths\<rparr> = Inr s"
      by (simp add: seeding_def or_null_def truthy_def add_output_placeholder_def
          add_media_placeholder_def split: sum.splits)
    from add_input_files_names [OF this] seeding_known [OF a]
    show "fst ` set (fileSystem s) = system_paths \<union> fst ` set fls
        \<and> knownFiles s = system_paths \<union> fst ` set fls"
      by (simp add: system_files_names KnownPathSet_def)
  qed
  have o: "collect_output (opts\<lparr>output_file := Some []\<rparr>) es f = Inr f"
    "collect_media (opts\<lparr>extract_media := Some []\<rparr>) es f = Inr f"
    by (rule co(1) cm(1))+
  show ?thesis
    by (intro conjI) (rule s1 s2 h1 h2 c1 c2 e o)+
qed

theorem empty_string_option_is_absent_witness:
  "ex_out_run (ex_out_opts\<lparr>extract_media := Some []\<rparr>\<lparr>output_file := Some []\<rparr>)
     = ex_out_run (ex_out_opts\<lparr>extract_media := Some []\<rparr>\<lparr>output_file := None\<rparr>)
   \<and> ex_out_run (ex_out_opts\<lparr>extract_media := Some []\<rparr>) = ex_out_run (ex_out_opts\<lparr>extract_media := None\<rparr>)
   \<and> convert ex_out_run parse_nothing ex_empty_opts None [] = Inr ex_out_result
   \<and> seeding ex_empty_opts None [] = Inr ex_out_seeded
   \<and> fst ` set (fileSystem ex_out_seeded) = system_paths
   \<and> knownFiles ex_out_seeded = system_paths"
proof -
  have r1: "ex_out_run (ex_out_opts\<lparr>extract_media := Some []\<rparr>\<lparr>output_file := Some []\<rparr>)
     = ex_out_run (ex_out_opts\<lparr>extract_media := Some []\<rparr>\<lparr>output_file := None\<rparr>)"
    and r2: "ex_out_run (ex_out_opts\<lparr>extract_media := Some []\<rparr>) = ex_out_run (ex_out_opts\<lparr>extract_media := None\<rparr>)"
    by (simp_all add: ex_out_run_def scripted_def fun_eq_iff)
  have o: "ex_empty_opts = ex_out_opts\<lparr>extract_media := Some []\<rparr>\<lparr>output_file := Some []\<rparr>"
    "ex_out_opts\<lparr>extract_media := Some []\<rparr>\<lparr>output_file := None\<rparr> = ex_out_opts\<lparr>extract_media := Some []\<rparr>"
    "ex_out_opts\<lparr>extract_media := None\<rparr> = ex_out_opts"
    "ex_empty_opts = ex_out_opts\<lparr>output_file := Some [], extract_media := Some []\<rparr>"
    by (simp_all add: ex_empty_opts_def ex_out_opts_def)
  note t1 = empty_string_option_is_absent [of "ex_out_opts\<lparr>extract_media := Some []\<rparr>" None "[]" _ _ _ ex_out_run]
  note t2 = empty_string_option_is_absent [of ex_out_opts None "[]" parse_nothing _ _ ex_out_run ex_out_seeded]
  from t1 [of parse_nothing] r1
  have "convert ex_out_run parse_nothing ex_empty_opts None []
      = convert ex_out_run parse_nothing (ex_out_opts\<lparr>extract_media := Some []\<rparr>) None []"
    by (simp add: o(1,2))
  also from t2 r2 have "\<dots> = convert ex_out_run parse_nothing ex_out_opts None []"
    by (simp add: o(3))
  finally have c: "convert ex_out_run parse_nothing ex_empty_opts None [] = Inr ex_out_result"
    by (simp add: ex_out_convert)
  from t1 have "seeding ex_empty_opts None [] = seeding (ex_out_opts\<lparr>extract_media := Some []\<rparr>) None []"
    by (simp add: o(1,2))
  also from t2 have "\<dots> = seeding ex_out_opts None []" by (simp add: o(3))
  finally have s: "seeding ex_empty_opts None [] = Inr ex_out_seeded"
    by (simp add: ex_out_seeding)
  from t2 s have "fst ` set (fileSystem ex_out_seeded) = system_paths
    \<and> knownFiles ex_out_seeded = system_paths"
    by (simp add: o(4) [symmetric])
  with r1 r2 c s show ?thesis by simp
qed

text \<open>
  Claim C10. Whenever \<open>convert\<close> returns a result, \<open>mediaFiles\<close> is a submapping of
  \<open>files\<close>: a path that \<open>mediaFiles\<close> maps to a value is mapped to the same value by
  \<open>files\<close>; and none of the four system paths \<open>stdin\<close>, \<open>stdout\<close>, \<open>stderr\<close>,
  \<open>warnings\<close> is a key of \<open>mediaFiles\<close>.
\<close>

theorem mediaFiles_submap_of_files:
  assumes "convert run JSON_parse opts stdin fls = Inr r"
  shows "(map_of (mediaFiles r) p = Some v \<longrightarrow> map_of (files r) p = Some v)
       \<and> (p \<in> {js ''stdin'', js ''stdout'', js ''stderr'', js ''warnings''}
            \<longrightarrow> map_of (mediaFiles r) p = None)"
proof -
  from assms obtain s eff where s: "seeding opts stdin fls = Inr s"
    and e: "run opts (fileSystem s) = Inr eff"
    by (rule convert_Inr)
  from s e assms obtain f2 f' m' where
    c: "classify (knownFiles s) (or_null (output_file opts)) (or_null (extract_media opts))
           (entries eff) (f2, \<lparr>props = [], blob_proto = False\<rparr>) = Inr (f', m')"
    and fr: "files r = props f'" and mr: "mediaFiles r = props m'"
    by (rule convert_run)
  have "map_of (props m') \<subseteq>\<^sub>m map_of (props f')"
    by (rule classify_sub [OF c]) simp_all
  then have sub: "map_of (mediaFiles r) p = Some v \<longrightarrow> map_of (files r) p = Some v"
    unfolding fr mr by (auto simp: map_le_def dom_def)
  have "p \<in> system_paths \<longrightarrow> p \<notin> fst ` set (mediaFiles r)"
    unfolding mr classify_keys_media [OF c] seeding_known [OF s] KnownPathSet_def by simp
  then have "p \<in> system_paths \<longrightarrow> map_of (mediaFiles r) p = None"
    by (simp add: map_of_eq_None_iff)
  with sub show ?thesis by (simp add: system_paths_def)
qed

theorem mediaFiles_submap_of_files_witness:
  "convert ex_dir_run parse_nothing ex_dir_opts None ex_dir_files = Inr ex_dir_result
   \<and> map_of (mediaFiles ex_dir_result) (js ''media/img1.png'') = Some (JBlob [0x89, 0x50] [])
   \<and> map_of (files ex_dir_result) (js ''media/img1.png'') = Some (JBlob [0x89, 0x50] [])
   \<and> map_of (mediaFiles ex_dir_result) (js ''stdout'') = None"
proof -
  have m: "map_of (mediaFiles ex_dir_result) (js ''media/img1.png'') = Some (JBlob [0x89, 0x50] [])"
    by (simp add: ex_dir_result_def)
  from mediaFiles_submap_of_files [OF ex_dir_convert, of "js ''media/img1.png''" "JBlob [0x89, 0x50] []"] m
  have f: "map_of (files ex_dir_result) (js ''media/img1.png'') = Some (JBlob [0x89, 0x50] [])"
    by simp
  from mediaFiles_submap_of_files [OF ex_dir_convert, of "js ''stdout''"]
  have "map_of (mediaFiles ex_dir_result) (js ''stdout'') = None" by simp
  with ex_dir_convert m f show ?thesis by simp
qed

end
